theory Spec2Isabelle
  imports Complex_Main "HOL-Library.Word"
begin

unbundle bit_operations_syntax

section \<open>GhostType audio enhancement engine: a shallow embedding\<close>

text \<open>
  The model follows \<^verbatim>\<open>src/python/enhancement_engine.py\<close> function by function.

  \<^item> A waveform (a one-dimensional numpy array) is a list of samples. Samples and every
    other Python float are real numbers: the arithmetic of the model is exact, so the
    rounding of float32 and float64 operations, infinities and NaN are not modelled, and
    \<^verbatim>\<open>astype(np.float32)\<close> is the identity. There is one exception, where the rounding
    decides an integer result: the float32 product that \<^verbatim>\<open>_float_to_pcm16\<close> rounds to an
    int16 sample is rounded to float32 in the model too (\<open>f32_round\<close>).
  \<^item> Python integers are \<^typ>\<open>int\<close>, array sizes are \<^typ>\<open>nat\<close>, int16 samples are
    \<^typ>\<open>16 word\<close> and bytes are \<^typ>\<open>8 word\<close>.
  \<^item> A diagnostics dictionary is a map from keys to values of type \<open>stat\<close>.
  \<^item> The optional third-party modules are parameters of the model (\<open>plugins\<close>);
    a module that is \<^verbatim>\<open>None\<close> in the source is \<open>None\<close> here.
  \<^item> Every exception of the source is a value: a function that can raise returns
    \<open>error + 'a\<close>, and what a backend raises is the text of its exception.
\<close>

subsection \<open>Python and numpy primitives\<close>

text \<open>\<^verbatim>\<open>_clamp(value, lower, upper) = max(lower, min(upper, value))\<close>\<close>

definition clamp :: "real \<Rightarrow> real \<Rightarrow> real \<Rightarrow> real" where
  "clamp v lower upper = max lower (min upper v)"

text \<open>\<^verbatim>\<open>np.clip(a, lo, hi)\<close> is \<^verbatim>\<open>minimum(maximum(a, lo), hi)\<close>, element by element.\<close>

definition np_clip :: "real list \<Rightarrow> real \<Rightarrow> real \<Rightarrow> real list" where
  "np_clip a lo hi = map (\<lambda>x. min (max x lo) hi) a"

text \<open>
  Python's \<^verbatim>\<open>round(x)\<close> and \<^verbatim>\<open>np.round\<close> round to the nearest integer and a tie
  to the even neighbour.
\<close>

definition py_round :: "real \<Rightarrow> int" where
  "py_round x =
     (let f = \<lfloor>x\<rfloor>; d = x - of_int f
      in if d < 1 / 2 then f else if 1 / 2 < d then f + 1
         else if even f then f else f + 1)"

text \<open>
  The float32 nearest to a real number, a tie going to the even significand: what a
  float32 operation returns for the exact result \<open>v\<close>. A float32 has a significand of
  24 bits, so between \<open>2 powi e\<close> and \<open>2 powi (e + 1)\<close> the float32 values are
  \<open>2 powi (e - 23)\<close> apart, and below \<open>2 powi - 126\<close> (the subnormal range) they are
  \<open>2 powi - 149\<close> apart. Overflow to infinity is not modelled: the function is used on
  magnitudes up to 32767.
\<close>

definition f32_exponent :: "real \<Rightarrow> int" where
  "f32_exponent v = max \<lfloor>log 2 \<bar>v\<bar>\<rfloor> (- 126)"

definition f32_round :: "real \<Rightarrow> real" where
  "f32_round v =
     (if v = 0 then 0
      else let ulp = 2 powi (f32_exponent v - 23)
           in of_int (py_round (v / ulp)) * ulp)"

text \<open>\<^verbatim>\<open>round(x, n)\<close>, on the exact value.\<close>

definition round_nd :: "real \<Rightarrow> nat \<Rightarrow> real" where
  "round_nd x n = of_int (py_round (x * 10 ^ n)) / 10 ^ n"

definition np_mean :: "real list \<Rightarrow> real" where
  "np_mean xs = sum_list xs / real (length xs)"

text \<open>\<^verbatim>\<open>range(0, size, step)\<close> with the slices \<^verbatim>\<open>a[start:min(size, start + step)]\<close>
  it is used for: the consecutive frames of a signal.\<close>

function frames_of :: "nat \<Rightarrow> 'a list \<Rightarrow> 'a list list" where
  "frames_of n xs =
     (if xs = [] \<or> n = 0 then [] else take n xs # frames_of n (drop n xs))"
  by pat_completeness auto
termination
  by (relation "measure (\<lambda>(n, xs). length xs)") auto

declare frames_of.simps [simp del]

subsection \<open>Diagnostics and errors\<close>

datatype stat = SBool bool | SStr string | SInt int | SNum real

type_synonym stats = "string \<rightharpoonup> stat"

text \<open>The exceptions that leave a function of the engine.\<close>

datatype error = ValueError | ZeroDivisionError | MeterError string

subsection \<open>Configuration\<close>

record limiter_config =
  enabled :: bool
  threshold :: real
  attack_ms :: real
  release_ms :: real

record targets_config =
  lufs_target :: real
  max_gain_db :: real

record vad_config =
  engine :: string
  aggressiveness :: int
  preroll_ms :: int
  hangover_ms :: int

record config =
  mode :: string
  ns_engine :: string
  noise_suppression_level :: string
  loudness_strategy :: string
  dynamics :: string
  limiter :: limiter_config
  targets :: targets_config
  vad :: vad_config
  hpf_cutoff_hz :: real

subsection \<open>Signal metrics\<close>

definition estimate_rms_dbfs :: "real list \<Rightarrow> real" where
  "estimate_rms_dbfs signal =
     (if signal = [] then - 120
      else let rms = sqrt (np_mean (map (\<lambda>x. x * x) signal))
           in 20 * log 10 (max rms (1 / 10 ^ 7)))"

definition estimate_peak_dbfs :: "real list \<Rightarrow> real" where
  "estimate_peak_dbfs signal =
     (if signal = [] then - 120
      else let peak = Max (set (map abs signal))
           in 20 * log 10 (max peak (1 / 10 ^ 7)))"

text \<open>
  \<^verbatim>\<open>np.percentile(a, q)\<close> with the default linear interpolation: the value at the
  virtual index \<open>q / 100 * (n - 1)\<close> of the sorted array.
\<close>

definition np_percentile :: "real list \<Rightarrow> real \<Rightarrow> real" where
  "np_percentile a q =
     (let s = sort a;
          pos = q / 100 * (real (length a) - 1);
          lo = nat \<lfloor>pos\<rfloor>;
          hi = min (lo + 1) (length a - 1);
          frac = pos - real lo
      in s ! lo + frac * (s ! hi - s ! lo))"

definition estimate_noise_floor_db :: "real list \<Rightarrow> real" where
  "estimate_noise_floor_db signal =
     (if signal = [] then - 120
      else let p20 = np_percentile (map abs signal) 20
           in 20 * log 10 (max p20 (1 / 10 ^ 7)))"

subsection \<open>Limiter\<close>

text \<open>
  The time constant of both the limiter and the compressor:
  \<^verbatim>\<open>math.exp(-1.0 / max(1.0, (ms / 1000.0) * sample_rate))\<close> at the fixed rate 16000.
\<close>

definition smoothing_coef :: "real \<Rightarrow> real" where
  "smoothing_coef ms = exp (- 1 / max 1 (ms / 1000 * 16000))"

text \<open>
  The loop of \<^verbatim>\<open>_apply_limiter\<close>; the state is \<open>gain\<close>. It returns for every sample
  the pair \<^verbatim>\<open>(gains[i], out[i])\<close>.
\<close>

fun limiter_loop :: "real \<Rightarrow> real \<Rightarrow> real \<Rightarrow> real \<Rightarrow> real list \<Rightarrow> (real \<times> real) list" where
  "limiter_loop thr attack release gain [] = []"
| "limiter_loop thr attack release gain (sample # rest) =
     (let abs_sample = \<bar>sample\<bar>;
          target_gain = (if abs_sample \<le> thr then 1 else thr / max abs_sample (1 / 10 ^ 6));
          coef = (if target_gain < gain then attack else release);
          gain' = coef * gain + (1 - coef) * target_gain
      in (gain', sample * gain') # limiter_loop thr attack release gain' rest)"

text \<open>
  \<^verbatim>\<open>_apply_limiter(signal, force_enable, threshold_override)\<close>. On an empty signal
  with the limiter on, \<^verbatim>\<open>np.min(gains)\<close> raises ValueError.
\<close>

definition limiter_threshold :: "limiter_config \<Rightarrow> real option \<Rightarrow> real" where
  "limiter_threshold lc threshold_override =
     clamp (case threshold_override of Some t \<Rightarrow> t | None \<Rightarrow> threshold lc) (6 / 10) (999 / 1000)"

definition apply_limiter ::
  "config \<Rightarrow> real list \<Rightarrow> bool \<Rightarrow> real option \<Rightarrow> error + (real list \<times> stats)" where
  "apply_limiter cfg signal force_enable threshold_override =
     (let limiter_cfg = limiter cfg
      in if \<not> (force_enable \<or> enabled limiter_cfg)
         then Inr (signal, [''limiter_enabled'' \<mapsto> SBool False,
                            ''limiter_reduction_db'' \<mapsto> SNum 0])
         else
           let thr = limiter_threshold limiter_cfg threshold_override;
               att_ms = max (1 / 10) (attack_ms limiter_cfg);
               rel_ms = max 1 (release_ms limiter_cfg);
               attack = smoothing_coef att_ms;
               release = smoothing_coef rel_ms;
               trace = limiter_loop thr attack release 1 signal;
               gains = map fst trace;
               out = np_clip (map snd trace) (- 1) 1
           in if gains = [] then Inl ValueError
              else
                let reduction_db = - 20 * log 10 (max (Min (set gains)) (1 / 10 ^ 7))
                in Inr (out, [''limiter_enabled'' \<mapsto> SBool True,
                              ''limiter_threshold'' \<mapsto> SNum (round_nd thr 4),
                              ''limiter_reduction_db'' \<mapsto> SNum (round_nd reduction_db 2),
                              ''limiter_attack_ms'' \<mapsto> SNum (round_nd att_ms 2),
                              ''limiter_release_ms'' \<mapsto> SNum (round_nd rel_ms 2)]))"

subsection \<open>Upward compressor\<close>

text \<open>
  The loop of \<^verbatim>\<open>_apply_upward_compressor\<close> with its constants (threshold 0.125,
  ratio 2.0); the state is the envelope \<open>env\<close>. It returns for every sample the pair
  \<^verbatim>\<open>(gain_trace[i], out[i])\<close>.
\<close>

fun compressor_loop :: "real \<Rightarrow> real \<Rightarrow> real \<Rightarrow> real \<Rightarrow> real list \<Rightarrow> (real \<times> real) list" where
  "compressor_loop attack release max_gain env [] = []"
| "compressor_loop attack release max_gain env (sample # rest) =
     (let level = \<bar>sample\<bar>;
          coef = (if level > env then attack else release);
          env' = coef * env + (1 - coef) * level;
          gain = (if env' < 1 / 8
                  then (1 / 8 / max env' (1 / 10 ^ 5)) powr (1 - 1 / 2)
                  else 1);
          gain' = clamp gain 1 max_gain
      in (gain', sample * gain') # compressor_loop attack release max_gain env' rest)"

definition compressor_max_gain :: "config \<Rightarrow> real" where
  "compressor_max_gain cfg = 10 powr (min (max_gain_db (targets cfg)) 18 / 20)"

definition compressor_trace :: "config \<Rightarrow> real list \<Rightarrow> (real \<times> real) list" where
  "compressor_trace cfg signal =
     compressor_loop (smoothing_coef 20) (smoothing_coef 250) (compressor_max_gain cfg) 0 signal"

text \<open>On an empty signal \<^verbatim>\<open>np.max(gain_trace)\<close> raises ValueError.\<close>

definition apply_upward_compressor :: "config \<Rightarrow> real list \<Rightarrow> error + (real list \<times> stats)" where
  "apply_upward_compressor cfg signal =
     (let trace = compressor_trace cfg signal;
          gain_trace = map fst trace;
          out = map snd trace
      in if gain_trace = [] then Inl ValueError
         else
           let avg_gain = np_mean gain_trace
           in Inr (out,
                [''upward_comp_avg_gain_db'' \<mapsto>
                    SNum (round_nd (20 * log 10 (max avg_gain (1 / 10 ^ 7))) 2),
                 ''upward_comp_peak_gain_db'' \<mapsto>
                    SNum (round_nd (20 * log 10 (max (Max (set gain_trace)) (1 / 10 ^ 7))) 2),
                 ''upward_comp_threshold'' \<mapsto> SNum (1 / 8),
                 ''upward_comp_ratio'' \<mapsto> SNum 2]))"

subsection \<open>Dynamics stage\<close>

text \<open>\<^verbatim>\<open>{f"dyn_{key}": value for key, value in limiter_stats.items()}\<close>\<close>

definition prefix_keys :: "string \<Rightarrow> stats \<Rightarrow> stats" where
  "prefix_keys p m = (\<lambda>k. if take (length p) k = p then m (drop (length p) k) else None)"

definition apply_dynamics_stage :: "config \<Rightarrow> real list \<Rightarrow> error + (real list \<times> stats)" where
  "apply_dynamics_stage cfg signal =
     (if dynamics cfg = ''off'' then Inr (signal, [''dynamics_backend'' \<mapsto> SStr ''off''])
      else
        case apply_upward_compressor cfg signal of
          Inl e \<Rightarrow> Inl e
        | Inr (compressed, comp_stats) \<Rightarrow>
            if dynamics cfg = ''upward_comp''
            then Inr (compressed, comp_stats(''dynamics_backend'' \<mapsto> SStr ''upward_comp''))
            else
              case apply_limiter cfg compressed True
                     (Some (min (threshold (limiter cfg)) (99 / 100))) of
                Inl e \<Rightarrow> Inl e
              | Inr (limited, limiter_stats) \<Rightarrow>
                  Inr (limited,
                       (comp_stats ++ prefix_keys ''dyn_'' limiter_stats)
                         (''dynamics_backend'' \<mapsto> SStr ''comp_limiter'')))"

subsection \<open>Curve smoother\<close>

text \<open>
  \<^verbatim>\<open>np.convolve(a, v, mode="valid")\<close>: the full overlaps of the longer sequence with
  the reversed shorter one. Both arguments are non-empty where it is called.
\<close>

definition conv_valid :: "real list \<Rightarrow> real list \<Rightarrow> real list" where
  "conv_valid a v =
     map (\<lambda>k. sum_list (map2 (*) (take (length v) (drop k a)) (rev v)))
       [0 ..< length a + 1 - length v]"

definition np_convolve_valid :: "real list \<Rightarrow> real list \<Rightarrow> real list" where
  "np_convolve_valid a v = (if length v \<le> length a then conv_valid a v else conv_valid v a)"

definition gauss_kernel :: "int \<Rightarrow> real list" where
  "gauss_kernel len =
     (let sigma = max 1 (real_of_int len / 6);
          half = len div 2;
          xs = map real_of_int [- half .. half];
          kernel = map (\<lambda>x. exp (- (x ^ 2) / (2 * sigma * sigma))) xs
      in map (\<lambda>k. k / sum_list kernel) kernel)"

definition smooth_curve :: "real list \<Rightarrow> int \<Rightarrow> real list" where
  "smooth_curve values window =
     (if length values \<le> 1 then values
      else
        let len = max 3 (window OR 1);
            half = nat (len div 2);
            kernel = gauss_kernel len;
            padded = replicate half (hd values) @ values @ replicate half (last values)
        in np_convolve_valid padded kernel)"

subsection \<open>Loudness stage\<close>

definition target_map :: "string \<rightharpoonup> real" where
  "target_map = [''fast_dsp'' \<mapsto> - 24, ''high_quality'' \<mapsto> - 22, ''custom'' \<mapsto> - 24]"

definition rms_target_db :: "config \<Rightarrow> real" where
  "rms_target_db cfg = (case target_map (mode cfg) of Some t \<Rightarrow> t | None \<Rightarrow> - 24)"

definition rms_gain_db :: "config \<Rightarrow> real list \<Rightarrow> real" where
  "rms_gain_db cfg signal =
     clamp (rms_target_db cfg - estimate_rms_dbfs signal) 0 (max_gain_db (targets cfg))"

definition apply_rms_target :: "config \<Rightarrow> real list \<Rightarrow> real list \<times> stats" where
  "apply_rms_target cfg signal =
     (let target_db = rms_target_db cfg;
          gain_db = rms_gain_db cfg signal;
          gain_linear = 10 powr (gain_db / 20);
          out = map (\<lambda>x. x * gain_linear) signal
      in (out, [''loudness_backend'' \<mapsto> SStr ''rms_target'',
                ''applied_gain_db'' \<mapsto> SNum (round_nd gain_db 2),
                ''target_rms_dbfs'' \<mapsto> SNum (round_nd target_db 2)]))"

text \<open>Boolean-mask indexing \<^verbatim>\<open>signal[mask]\<close>, for a mask of the signal's length.\<close>

definition select :: "real list \<Rightarrow> bool list \<Rightarrow> real list" where
  "select signal speech_mask = map fst (filter snd (zip signal speech_mask))"

text \<open>
  The per-frame gain of \<^verbatim>\<open>_apply_dynaudnorm_like\<close> (the body of its first loop).
\<close>

definition frame_gain :: "real \<Rightarrow> real \<Rightarrow> real list \<Rightarrow> real" where
  "frame_gain gate_db max_gain_linear frame =
     (let rms_db = estimate_rms_dbfs frame;
          peak = (if frame \<noteq> [] then Max (set (map abs frame)) else 0)
      in if rms_db < gate_db then 1
         else clamp (95 / 100 / max peak (1 / 10 ^ 5)) 1 max_gain_linear)"

text \<open>
  The second loop: frame \<open>idx\<close> is multiplied by \<^verbatim>\<open>smoothed[idx]\<close>. The frames are
  consecutive, so writing them to \<^verbatim>\<open>out[start:end]\<close> is concatenation.
\<close>

definition apply_frame_gains :: "real list list \<Rightarrow> real list \<Rightarrow> real list" where
  "apply_frame_gains frames smoothed =
     concat (map (\<lambda>(idx, frame). map (\<lambda>x. x * smoothed ! idx) frame)
                 (zip [0 ..< length frames] frames))"

text \<open>\<^verbatim>\<open>out[~speech_mask] = signal[~speech_mask]\<close>, for a mask of the signal's length.\<close>

definition restore_non_speech :: "real list \<Rightarrow> real list \<Rightarrow> bool list \<Rightarrow> real list" where
  "restore_non_speech out signal speech_mask =
     map (\<lambda>(y, x, m). if m then y else x) (zip out (zip signal speech_mask))"

definition apply_dynaudnorm_like ::
  "config \<Rightarrow> real list \<Rightarrow> int \<Rightarrow> bool list option \<Rightarrow> real list \<times> stats" where
  "apply_dynaudnorm_like cfg signal sample_rate speech_mask =
     (let (frame_len_ms, smooth_window) =
            (if mode cfg = ''high_quality'' then (500, 31) else (250 :: int, 13 :: int));
          frame_len = nat (max 1 (py_round (real_of_int sample_rate
                                            * (real_of_int frame_len_ms / 1000))));
          max_gain = min (max_gain_db (targets cfg)) 10;
          max_gain_linear = 10 powr (max_gain / 20);
          noise_db = estimate_noise_floor_db signal;
          gate_db = noise_db + 8;
          frames = frames_of frame_len signal;
          frame_gains = map (frame_gain gate_db max_gain_linear) frames
      in if frame_gains = []
         then (signal, [''loudness_backend'' \<mapsto> SStr ''dynaudnorm_like'',
                        ''applied_gain_db'' \<mapsto> SNum 0,
                        ''noise_gate_db'' \<mapsto> SNum (round_nd gate_db 2)])
         else
           let smoothed = smooth_curve frame_gains smooth_window;
               out = apply_frame_gains frames smoothed;
               out' = (case speech_mask of
                         Some m \<Rightarrow>
                           if length m = length out then restore_non_speech out signal m
                           else out
                       | None \<Rightarrow> out);
               applied_gain_db = 20 * log 10 (max (np_mean smoothed) (1 / 10 ^ 7))
           in (out', [''loudness_backend'' \<mapsto> SStr ''dynaudnorm_like'',
                      ''applied_gain_db'' \<mapsto> SNum (round_nd applied_gain_db 2),
                      ''noise_gate_db'' \<mapsto> SNum (round_nd gate_db 2),
                      ''dyn_peak_target'' \<mapsto> SNum (95 / 100),
                      ''dyn_max_gain_db'' \<mapsto> SNum max_gain,
                      ''dyn_frame_len_ms'' \<mapsto> SInt frame_len_ms,
                      ''dyn_gauss_window'' \<mapsto> SInt smooth_window]))"

text \<open>
  The optional module \<^verbatim>\<open>pyloudnorm\<close>: the constructor \<^verbatim>\<open>Meter(rate)\<close> and
  \<^verbatim>\<open>meter.integrated_loudness(data)\<close>, each returning its result or the text of the
  exception it raises.
\<close>

record 'm pyln_module =
  meter_new :: "int \<Rightarrow> string + 'm"
  integrated_loudness :: "'m \<Rightarrow> real list \<Rightarrow> string + real"

definition rms_fallback :: "config \<Rightarrow> real list \<Rightarrow> string \<Rightarrow> real list \<times> stats" where
  "rms_fallback cfg signal tag =
     (let (fallback, fallback_stats) = apply_rms_target cfg signal
      in (fallback, fallback_stats(''lufs_backend'' \<mapsto> SStr tag)))"

definition apply_lufs_normalization ::
  "config \<Rightarrow> 'm pyln_module option \<Rightarrow> real list \<Rightarrow> int \<Rightarrow> bool list option
     \<Rightarrow> error + (real list \<times> stats)" where
  "apply_lufs_normalization cfg pyln signal sample_rate speech_mask =
     (case pyln of
        None \<Rightarrow> Inr (rms_fallback cfg signal ''fallback_rms'')
      | Some P \<Rightarrow>
          (case meter_new P sample_rate of
             Inl e \<Rightarrow> Inl (MeterError e)
           | Inr meter \<Rightarrow>
               let measure =
                     (case speech_mask of
                        Some m \<Rightarrow>
                          if length m = length signal \<and> True \<in> set m then select signal m
                          else signal
                      | None \<Rightarrow> signal)
               in if int (length measure) < max 256 (sample_rate div 10)
                  then Inr (rms_fallback cfg signal ''fallback_rms_short_input'')
                  else
                    (case integrated_loudness P meter measure of
                       Inl e \<Rightarrow> Inr (rms_fallback cfg signal ''fallback_rms_error'')
                     | Inr measured_lufs \<Rightarrow>
                         let target = lufs_target (targets cfg);
                             gain_db = clamp (target - measured_lufs) (- 12)
                                         (max_gain_db (targets cfg));
                             gain_linear = 10 powr (gain_db / 20);
                             out = map (\<lambda>x. x * gain_linear) signal
                         in Inr (out,
                              [''lufs_backend'' \<mapsto> SStr ''pyloudnorm'',
                               ''speech_lufs'' \<mapsto> SNum (round_nd measured_lufs 2),
                               ''target_lufs'' \<mapsto> SNum (round_nd target 2),
                               ''applied_gain_db'' \<mapsto> SNum (round_nd gain_db 2)]))))"

definition apply_loudness_stage ::
  "config \<Rightarrow> 'm pyln_module option \<Rightarrow> real list \<Rightarrow> int \<Rightarrow> bool list option
     \<Rightarrow> error + (real list \<times> stats)" where
  "apply_loudness_stage cfg pyln signal sample_rate speech_mask =
     (let strategy = loudness_strategy cfg
      in if strategy = ''lufs'' then apply_lufs_normalization cfg pyln signal sample_rate speech_mask
         else if strategy = ''dynaudnorm''
         then Inr (apply_dynaudnorm_like cfg signal sample_rate speech_mask)
         else Inr (apply_rms_target cfg signal))"

subsection \<open>DC removal and high-pass filter\<close>

definition apply_dc_removal :: "real list \<Rightarrow> real list \<times> stats" where
  "apply_dc_removal signal =
     (let dc = np_mean signal;
          centered = map (\<lambda>x. x - dc) signal
      in (centered, [''dc_offset_removed'' \<mapsto> SNum (round_nd dc 6)]))"

text \<open>
  The loop of \<^verbatim>\<open>_apply_high_pass_filter\<close> from index 1 on; the state is the previous
  output and the previous input.
\<close>

fun hpf_loop :: "real \<Rightarrow> real \<Rightarrow> real \<Rightarrow> real list \<Rightarrow> real list" where
  "hpf_loop alpha prev_out prev_in [] = []"
| "hpf_loop alpha prev_out prev_in (x # rest) =
     (let y = alpha * (prev_out + x - prev_in) in y # hpf_loop alpha y x rest)"

text \<open>
  Python raises ZeroDivisionError on a float division by zero: at
  \<^verbatim>\<open>1.0 / float(sample_rate)\<close> and at \<^verbatim>\<open>rc / (rc + dt)\<close>.
\<close>

definition apply_high_pass_filter ::
  "real list \<Rightarrow> real \<Rightarrow> int \<Rightarrow> error + (real list \<times> stats)" where
  "apply_high_pass_filter signal cutoff_hz sample_rate =
     (if length signal < 2 \<or> cutoff_hz \<le> 0 then Inr (signal, [''hpf_enabled'' \<mapsto> SBool False])
      else if sample_rate = 0 then Inl ZeroDivisionError
      else
        let dt = 1 / real_of_int sample_rate;
            rc = 1 / (2 * pi * cutoff_hz)
        in if rc + dt = 0 then Inl ZeroDivisionError
           else
             let alpha = rc / (rc + dt);
                 output = hd signal # hpf_loop alpha (hd signal) (hd signal) (tl signal)
             in Inr (output, [''hpf_enabled'' \<mapsto> SBool True,
                              ''hpf_cutoff_hz'' \<mapsto> SNum (round_nd cutoff_hz 2),
                              ''hpf_alpha'' \<mapsto> SNum (round_nd alpha 6)]))"

subsection \<open>Noise suppression\<close>

text \<open>
  The optional module \<^verbatim>\<open>webrtc_audio_processing.AudioProcessingModule\<close>. An instance
  is a value of type \<open>'s\<close>; each method returns the instance after the call (and the
  payload, for \<^verbatim>\<open>process_stream\<close>) or the text of the exception it raises.
  A \<^verbatim>\<open>str\<close> payload is taken after its latin-1 encoding; when that encoding fails
  the exception is one of the \<^verbatim>\<open>try\<close> block, like one of the call itself.
\<close>

record 's apm_module =
  apm_new :: "int \<Rightarrow> bool \<Rightarrow> int \<Rightarrow> bool \<Rightarrow> string + 's"
  set_stream_format :: "'s \<Rightarrow> int \<Rightarrow> int \<Rightarrow> int \<Rightarrow> int \<Rightarrow> string + 's"
  set_ns_level :: "'s \<Rightarrow> int \<Rightarrow> string + 's"
  set_agc_target :: "'s \<Rightarrow> int \<Rightarrow> string + 's"
  set_agc_level :: "'s \<Rightarrow> int \<Rightarrow> string + 's"
  process_stream :: "'s \<Rightarrow> 8 word list \<Rightarrow> string + (8 word list \<times> 's)"

text \<open>The calls made to the module, in order: the effect of the stage on its backend.\<close>

datatype apm_call =
    CallNew
  | CallSetStreamFormat int
  | CallSetNsLevel int
  | CallSetAgcTarget int
  | CallSetAgcLevel int
  | CallProcessStream "8 word list"

text \<open>What \<^verbatim>\<open>probe_enhancement_plugins\<close> reads: the optional imports of the module.\<close>

record ('s, 'm) plugins =
  pyln :: "'m pyln_module option"
  webrtc_apm :: "'s apm_module option"
  rnnoise :: bool
  deepfilternet :: bool
  speexdsp :: bool

definition map_ns_level :: "config \<Rightarrow> int" where
  "map_ns_level cfg =
     (case [''low'' \<mapsto> 0, ''moderate'' \<mapsto> 1, ''high'' \<mapsto> 2, ''veryhigh'' \<mapsto> (3 :: int)]
             (noise_suppression_level cfg) of
        Some l \<Rightarrow> l | None \<Rightarrow> 1)"

definition map_agc_params :: "config \<Rightarrow> int \<times> int" where
  "map_agc_params cfg = (if mode cfg = ''high_quality'' then (18, 68) else (20, 58))"

text \<open>
  \<^verbatim>\<open>_float_to_pcm16\<close>: clip to [-1, 1], scale by 32767, \<^verbatim>\<open>np.round\<close>, and the cast
  to int16. The frames of the pipeline are float32 arrays, so the product
  \<^verbatim>\<open>clipped * 32767.0\<close> is a float32 array: each product is rounded to float32 before
  \<^verbatim>\<open>np.round\<close> rounds it to an integer.
\<close>

definition float_to_pcm16 :: "real list \<Rightarrow> 16 word list" where
  "float_to_pcm16 signal =
     map (\<lambda>x. word_of_int (py_round (f32_round (x * 32767)))) (np_clip signal (- 1) 1)"

text \<open>
  Rounding to the nearest integer with a tie away from zero: the rounding that the
  specification of the engine names for this conversion, to compare with \<open>py_round\<close>.
\<close>

definition round_half_away :: "real \<Rightarrow> int" where
  "round_half_away x = (if 0 \<le> x then \<lfloor>x + 1 / 2\<rfloor> else \<lceil>x - 1 / 2\<rceil>)"

text \<open>\<^verbatim>\<open>tobytes()\<close> of an int16 array and \<^verbatim>\<open>np.frombuffer(payload, dtype=np.int16)\<close>,
  in the byte order of the machine (little-endian).\<close>

definition tobytes :: "16 word list \<Rightarrow> 8 word list" where
  "tobytes ws = concat (map (\<lambda>w. [ucast w, ucast (drop_bit 8 w)]) ws)"

fun int16_of_bytes :: "8 word list \<Rightarrow> 16 word list" where
  "int16_of_bytes (lo # hi # rest) = (push_bit 8 (ucast hi) OR ucast lo) # int16_of_bytes rest"
| "int16_of_bytes _ = []"

definition frombuffer :: "8 word list \<Rightarrow> string + 16 word list" where
  "frombuffer payload =
     (if odd (length payload) then Inl ''buffer size must be a multiple of element size''
      else Inr (int16_of_bytes payload))"

text \<open>\<^verbatim>\<open>np.pad(a, (0, n - a.size))\<close> for a shorter array.\<close>

definition pad_to :: "nat \<Rightarrow> real list \<Rightarrow> real list" where
  "pad_to n a = (if length a < n then a @ replicate (n - length a) 0 else a)"

text \<open>The five calls of the first \<^verbatim>\<open>try\<close> block; the first exception ends it.\<close>

definition apm_init ::
  "'s apm_module \<Rightarrow> int \<Rightarrow> int \<Rightarrow> int \<Rightarrow> int \<Rightarrow> apm_call list \<times> (string + 's)" where
  "apm_init M sample_rate ns_level agc_target agc_level =
     (case apm_new M 0 True 1 False of
        Inl e \<Rightarrow> ([CallNew], Inl e)
      | Inr a0 \<Rightarrow>
     (case set_stream_format M a0 sample_rate 1 sample_rate 1 of
        Inl e \<Rightarrow> ([CallNew, CallSetStreamFormat sample_rate], Inl e)
      | Inr a1 \<Rightarrow>
     (case set_ns_level M a1 ns_level of
        Inl e \<Rightarrow> ([CallNew, CallSetStreamFormat sample_rate, CallSetNsLevel ns_level], Inl e)
      | Inr a2 \<Rightarrow>
     (case set_agc_target M a2 agc_target of
        Inl e \<Rightarrow> ([CallNew, CallSetStreamFormat sample_rate, CallSetNsLevel ns_level,
                   CallSetAgcTarget agc_target], Inl e)
      | Inr a3 \<Rightarrow>
          ([CallNew, CallSetStreamFormat sample_rate, CallSetNsLevel ns_level,
            CallSetAgcTarget agc_target, CallSetAgcLevel agc_level],
           set_agc_level M a3 agc_level)))))"

text \<open>
  The body of the second \<^verbatim>\<open>try\<close> block for one (padded) frame: the payload sent and
  either the exception text or the decoded, padded output frame with the next instance.
\<close>

definition process_frame ::
  "'s apm_module \<Rightarrow> nat \<Rightarrow> 's \<Rightarrow> real list \<Rightarrow> 8 word list \<times> (string + (real list \<times> 's))" where
  "process_frame M frame_size apm frame =
     (let payload = tobytes (float_to_pcm16 frame)
      in (payload,
          case process_stream M apm payload of
            Inl e \<Rightarrow> Inl e
          | Inr (out_payload, apm') \<Rightarrow>
              (case frombuffer out_payload of
                 Inl e \<Rightarrow> Inl e
               | Inr ws \<Rightarrow>
                   Inr (pad_to frame_size (map (\<lambda>w. real_of_int (sint w) / 32768) ws), apm'))))"

text \<open>
  The frame loop. \<open>processed\<close> is the part of the output buffer written so far, \<open>n\<close> is
  \<^verbatim>\<open>frames_processed\<close>, and \<open>calls\<close> the payloads sent so far. An exception returns
  its text; the caller then returns the original signal.
\<close>

fun ns_loop ::
  "'s apm_module \<Rightarrow> nat \<Rightarrow> 's \<Rightarrow> real list list \<Rightarrow> real list \<Rightarrow> nat \<Rightarrow> apm_call list
     \<Rightarrow> apm_call list \<times> (string + (real list \<times> nat))" where
  "ns_loop M frame_size apm [] processed n calls = (calls, Inr (processed, n))"
| "ns_loop M frame_size apm (chunk # rest) processed n calls =
     (let frame = pad_to frame_size chunk;
          (payload, r) = process_frame M frame_size apm frame;
          calls' = calls @ [CallProcessStream payload]
      in case r of
           Inl e \<Rightarrow> (calls', Inl e)
         | Inr (out_frame, apm') \<Rightarrow>
             ns_loop M frame_size apm' rest (processed @ take (length chunk) out_frame)
               (n + 1) calls')"

definition ns_frame_size :: "int \<Rightarrow> nat" where
  "ns_frame_size sample_rate = nat (max 1 (py_round (real_of_int sample_rate * (1 / 100))))"

definition apply_noise_suppression ::
  "config \<Rightarrow> ('s, 'm) plugins \<Rightarrow> real list \<Rightarrow> int \<Rightarrow> real list \<times> stats \<times> apm_call list" where
  "apply_noise_suppression cfg env signal sample_rate =
     (let requested = ns_engine cfg
      in if requested = ''off'' then (signal, [''ns_backend'' \<mapsto> SStr ''off''], [])
      else if requested = ''rnnoise'' \<and> rnnoise env
      then (signal, [''ns_backend'' \<mapsto> SStr ''rnnoise_passthrough''], [])
      else
      let requested = (if requested = ''rnnoise'' then ''webrtc'' else requested)
      in if requested = ''deepfilternet'' \<and> deepfilternet env
      then (signal, [''ns_backend'' \<mapsto> SStr ''deepfilternet_passthrough''], [])
      else
      let requested = (if requested = ''deepfilternet'' then ''webrtc'' else requested)
      in if requested = ''speex'' \<and> speexdsp env
      then (signal, [''ns_backend'' \<mapsto> SStr ''speex_passthrough''], [])
      else
      let requested = (if requested = ''speex'' then ''webrtc'' else requested)
      in if requested \<noteq> ''webrtc'' then (signal, [''ns_backend'' \<mapsto> SStr ''off''], [])
      else
        case webrtc_apm env of
          None \<Rightarrow> (signal, [''ns_backend'' \<mapsto> SStr ''unavailable''], [])
        | Some M \<Rightarrow>
            let frame_size = ns_frame_size sample_rate
            in if length signal < frame_size
               then (signal, [''ns_backend'' \<mapsto> SStr ''webrtc_apm'',
                              ''ns_frames_processed'' \<mapsto> SInt 0], [])
               else
                 let ns_level = map_ns_level cfg;
                     (agc_target, agc_level) = map_agc_params cfg
                 in case apm_init M sample_rate ns_level agc_target agc_level of
                      (calls, Inl exc) \<Rightarrow>
                        (signal, [''ns_backend'' \<mapsto> SStr ''error'',
                                  ''ns_error'' \<mapsto> SStr (''init_failed: '' @ exc)], calls)
                    | (calls, Inr apm) \<Rightarrow>
                        (case ns_loop M frame_size apm (frames_of frame_size signal) [] 0 calls of
                           (calls', Inl exc) \<Rightarrow>
                             (signal, [''ns_backend'' \<mapsto> SStr ''error'',
                                       ''ns_error'' \<mapsto> SStr (''process_failed: '' @ exc)], calls')
                         | (calls', Inr (processed, frames_processed)) \<Rightarrow>
                             (processed,
                              [''ns_backend'' \<mapsto> SStr ''webrtc_apm'',
                               ''ns_frames_processed'' \<mapsto> SInt (int frames_processed),
                               ''ns_level'' \<mapsto> SInt ns_level,
                               ''agc_target'' \<mapsto> SInt agc_target,
                               ''agc_level'' \<mapsto> SInt agc_level], calls')))"

subsection \<open>The pipeline\<close>

definition noise_estimate_db :: "real list \<Rightarrow> bool list option \<Rightarrow> real" where
  "noise_estimate_db work speech_mask =
     (case speech_mask of
        Some m \<Rightarrow>
          if length m = length work \<and> False \<in> set m
          then estimate_rms_dbfs (select work (map Not m))
          else estimate_noise_floor_db work
      | None \<Rightarrow> estimate_noise_floor_db work)"

definition clipping_sample_ratio :: "real list \<Rightarrow> real" where
  "clipping_sample_ratio work =
     real (length (filter (\<lambda>x. 999 / 1000 \<le> \<bar>x\<bar>) work)) / real (length work)"

definition request_stats :: "config \<Rightarrow> stats" where
  "request_stats cfg =
     [''v2_mode'' \<mapsto> SStr (mode cfg),
      ''ns_engine_requested'' \<mapsto> SStr (ns_engine cfg),
      ''loudness_strategy_requested'' \<mapsto> SStr (loudness_strategy cfg),
      ''dynamics_requested'' \<mapsto> SStr (dynamics cfg)]"

text \<open>
  \<^verbatim>\<open>EnhancementEngine.process\<close>. The result is the signal and the statistics of
  \<^verbatim>\<open>EnhancementV2Result\<close>, with the calls made to the noise-suppression module.
\<close>

definition process ::
  "config \<Rightarrow> ('s, 'm) plugins \<Rightarrow> real list \<Rightarrow> int \<Rightarrow> bool list option
     \<Rightarrow> error + (real list \<times> stats \<times> apm_call list)" where
  "process cfg env signal sample_rate speech_mask =
     (let stats = request_stats cfg
      in if signal = [] then Inr (signal, stats(''v2_empty_input'' \<mapsto> SBool True), [])
      else
        let work = np_clip signal (- 1) 1;
            (work, dc_stats) = apply_dc_removal work;
            stats = stats ++ dc_stats
        in case apply_high_pass_filter work (hpf_cutoff_hz cfg) sample_rate of
             Inl e \<Rightarrow> Inl e
           | Inr (work, hpf_stats) \<Rightarrow>
        let stats = stats ++ hpf_stats;
            (work, ns_stats, calls) = apply_noise_suppression cfg env work sample_rate;
            stats = stats ++ ns_stats;
            stats = stats(''noise_estimate_db'' \<mapsto>
                            SNum (round_nd (noise_estimate_db work speech_mask) 2))
        in case apply_loudness_stage cfg (pyln env) work sample_rate speech_mask of
             Inl e \<Rightarrow> Inl e
           | Inr (work, loudness_stats) \<Rightarrow>
        let stats = stats ++ loudness_stats
        in case apply_dynamics_stage cfg work of
             Inl e \<Rightarrow> Inl e
           | Inr (work, dynamics_stats) \<Rightarrow>
        let stats = stats ++ dynamics_stats
        in case apply_limiter cfg work False None of
             Inl e \<Rightarrow> Inl e
           | Inr (work, limiter_stats) \<Rightarrow>
        let stats = stats ++ limiter_stats;
            stats = stats(''output_rms_dbfs'' \<mapsto> SNum (round_nd (estimate_rms_dbfs work) 2),
                          ''output_peak_dbfs'' \<mapsto> SNum (round_nd (estimate_peak_dbfs work) 2),
                          ''clipping_sample_ratio'' \<mapsto>
                             SNum (round_nd (clipping_sample_ratio work) 6))
        in Inr (work, stats, calls))"

subsection \<open>Concrete inputs\<close>

text \<open>The defaults of the dataclasses \<^verbatim>\<open>EnhancementV2Config\<close>, \<^verbatim>\<open>LimiterConfig\<close>,
  \<^verbatim>\<open>TargetsConfig\<close> and \<^verbatim>\<open>VADConfig\<close>.\<close>

definition default_config :: config where
  "default_config =
     \<lparr>mode = ''fast_dsp'', ns_engine = ''webrtc'', noise_suppression_level = ''moderate'',
      loudness_strategy = ''dynaudnorm'', dynamics = ''upward_comp'',
      limiter = \<lparr>enabled = True, threshold = 98 / 100, attack_ms = 5, release_ms = 50\<rparr>,
      targets = \<lparr>lufs_target = - 18, max_gain_db = 18\<rparr>,
      vad = \<lparr>engine = ''webrtcvad'', aggressiveness = 1, preroll_ms = 100, hangover_ms = 350\<rparr>,
      hpf_cutoff_hz = 80\<rparr>"

text \<open>
  A signal of 125 samples, each one a float32, whose mean square is exactly \<open>1 / 1000\<close>:
  its RMS level is - 30 dBFS.
\<close>

definition quiet_signal :: "real list" where
  "quiet_signal = [1 / 4, 1 / 4] @ replicate 123 0"



text \<open>The default configuration with the lowest threshold and the shortest attack of the
  limiter.\<close>

definition hard_limiter_config :: config where
  "hard_limiter_config =
     default_config\<lparr>limiter := \<lparr>enabled = True, threshold = 6 / 10, attack_ms = 1 / 10,
                                   release_ms = 50\<rparr>\<rparr>"

text \<open>A noise-suppression module every call of which raises.\<close>

definition apm_always_raises :: "unit apm_module" where
  "apm_always_raises =
     \<lparr>apm_new = (\<lambda>_ _ _ _. Inl ''raised''),
      set_stream_format = (\<lambda>_ _ _ _ _. Inl ''raised''),
      set_ns_level = (\<lambda>_ _. Inl ''raised''),
      set_agc_target = (\<lambda>_ _. Inl ''raised''),
      set_agc_level = (\<lambda>_ _. Inl ''raised''),
      process_stream = (\<lambda>_ _. Inl ''raised'')\<rparr>"

text \<open>
  A module whose instance counts the frames it has seen: it returns an empty payload for
  the first frame and raises on the second.
\<close>

definition apm_fails_on_second_frame :: "nat apm_module" where
  "apm_fails_on_second_frame =
     \<lparr>apm_new = (\<lambda>_ _ _ _. Inr 0),
      set_stream_format = (\<lambda>a _ _ _ _. Inr a),
      set_ns_level = (\<lambda>a _. Inr a),
      set_agc_target = (\<lambda>a _. Inr a),
      set_agc_level = (\<lambda>a _. Inr a),
      process_stream = (\<lambda>a _. if a = 0 then Inr ([], 1) else Inl ''boom'')\<rparr>"

text \<open>A module that sets up without error and returns every payload as it received it.\<close>

definition apm_echo :: "unit apm_module" where
  "apm_echo =
     \<lparr>apm_new = (\<lambda>_ _ _ _. Inr ()),
      set_stream_format = (\<lambda>a _ _ _ _. Inr a),
      set_ns_level = (\<lambda>a _. Inr a),
      set_agc_target = (\<lambda>a _. Inr a),
      set_agc_level = (\<lambda>a _. Inr a),
      process_stream = (\<lambda>a payload. Inr (payload, a))\<rparr>"

definition plugins_with :: "'s apm_module \<Rightarrow> ('s, unit) plugins" where
  "plugins_with M =
     \<lparr>pyln = None, webrtc_apm = Some M, rnnoise = False, deepfilternet = False,
      speexdsp = False\<rparr>"

section \<open>Properties\<close>

lemma np_clip_bounds: "lo \<le> hi \<Longrightarrow> x \<in> set (np_clip a lo hi) \<Longrightarrow> lo \<le> x \<and> x \<le> hi"
  by (auto simp: np_clip_def)

lemma length_np_clip [simp]: "length (np_clip a lo hi) = length a"
  by (simp add: np_clip_def)

lemma length_limiter_loop [simp]: "length (limiter_loop thr a r g xs) = length xs"
  by (induction xs arbitrary: g) (simp_all add: Let_def)

lemma py_round_of_int [simp]: "py_round (of_int k) = k"
  by (simp add: py_round_def)

lemma py_round_numeral [simp]: "py_round (numeral k) = numeral k"
  using py_round_of_int [of "numeral k"] by simp

lemma py_round_one [simp]: "py_round 1 = 1"
  using py_round_of_int [of 1] by simp


subsection \<open>Lists, frames and clamping\<close>

lemma clamp_lower: "lower \<le> clamp v lower upper"
  by (simp add: clamp_def)

lemma clamp_upper: "lower \<le> upper \<Longrightarrow> clamp v lower upper \<le> upper"
  by (simp add: clamp_def)

lemma concat_frames_of: "0 < n \<Longrightarrow> concat (frames_of n xs) = xs"
proof (induction n xs rule: frames_of.induct)
  case (1 n xs)
  show ?case
  proof (cases "xs = []")
    case True
    then show ?thesis by (simp add: frames_of.simps)
  next
    case False
    with 1 have "concat (frames_of n (drop n xs)) = drop n xs" by simp
    with False 1(2) show ?thesis by (subst frames_of.simps) simp
  qed
qed

lemma frames_of_Nil_iff: "0 < n \<Longrightarrow> frames_of n xs = [] \<longleftrightarrow> xs = []"
  by (subst frames_of.simps) simp

subsection \<open>Rounding to integers and to float32\<close>

lemma py_round_cases:
  "py_round y = \<lfloor>y\<rfloor> \<or> py_round y = \<lfloor>y\<rfloor> + 1 \<and> 1 / 2 \<le> y - of_int \<lfloor>y\<rfloor>"
  by (auto simp: py_round_def Let_def)

lemma py_round_bounds:
  assumes "of_int a \<le> y" "y \<le> of_int b"
  shows "a \<le> py_round y \<and> py_round y \<le> b"
proof -
  have fl: "a \<le> \<lfloor>y\<rfloor>" "\<lfloor>y\<rfloor> \<le> b"
    using assms by (simp_all add: le_floor_iff floor_le_iff)
  show ?thesis
  proof (cases "py_round y = \<lfloor>y\<rfloor>")
    case True
    then show ?thesis using fl by simp
  next
    case False
    with py_round_cases [of y] have up: "py_round y = \<lfloor>y\<rfloor> + 1"
      and d: "1 / 2 \<le> y - of_int \<lfloor>y\<rfloor>"
      by auto
    have "\<lfloor>y\<rfloor> \<noteq> b"
    proof
      assume "\<lfloor>y\<rfloor> = b"
      with d assms(2) show False by simp
    qed
    with fl(2) have "\<lfloor>y\<rfloor> + 1 \<le> b" by simp
    with up fl(1) show ?thesis by simp
  qed
qed

lemma py_round_nearest: "\<bar>real_of_int (py_round y) - y\<bar> \<le> 1 / 2"
  by (simp add: py_round_def Let_def)

lemma py_round_tie_even: "y - of_int \<lfloor>y\<rfloor> = 1 / 2 \<Longrightarrow> even (py_round y)"
  by (simp add: py_round_def Let_def)

text \<open>The float32 spacing at \<open>v\<close>, from the binade of \<open>v\<close>.\<close>

lemma f32_exponent_eq:
  assumes "2 powi e \<le> \<bar>v\<bar>" "\<bar>v\<bar> < 2 powi (e + 1)" "- 126 \<le> e"
  shows "f32_exponent v = e"
proof -
  have "(0 :: real) < 2 powi e"
    by (simp add: zero_less_power_int)
  with assms(1) have pos: "0 < \<bar>v\<bar>"
    by linarith
  have p1: "(2 :: real) powr real_of_int e = 2 powi e"
    by (rule powr_real_of_int') simp_all
  have p2: "(2 :: real) powr real_of_int (e + 1) = 2 powi (e + 1)"
    by (rule powr_real_of_int') simp_all
  have "\<lfloor>log 2 \<bar>v\<bar>\<rfloor> = e"
    using floor_log_eq_powr_iff [of "\<bar>v\<bar>" 2 e, unfolded p1 p2] pos assms(1,2) by simp
  then show ?thesis
    using assms(3) by (simp add: f32_exponent_def)
qed

lemma f32_round_eval:
  assumes "2 powi e \<le> \<bar>v\<bar>" "\<bar>v\<bar> < 2 powi (e + 1)" "- 126 \<le> e"
  shows "f32_round v = of_int (py_round (v / 2 powi (e - 23))) * 2 powi (e - 23)"
proof -
  have "(0 :: real) < 2 powi e"
    by (simp add: zero_less_power_int)
  with assms(1) have "0 < \<bar>v\<bar>"
    by linarith
  then have "v \<noteq> 0"
    by simp
  then show ?thesis
    by (simp add: f32_round_def Let_def f32_exponent_eq [OF assms])
qed

text \<open>Rounding to float32 does not leave \<open>[-32767, 32767]\<close>: 32767 is a float32.\<close>

lemma f32_round_bounds:
  assumes "\<bar>v\<bar> \<le> 32767"
  shows "- 32767 \<le> f32_round v \<and> f32_round v \<le> 32767"
proof (cases "v = 0")
  case True
  then show ?thesis by (simp add: f32_round_def)
next
  case False
  define e where "e = f32_exponent v"
  define m where "m = nat (23 - e)"
  define u :: real where "u = 2 powi (e - 23)"
  have "log 2 \<bar>v\<bar> < 15"
    using assms False by (simp add: log_less_iff)
  then have "\<lfloor>log 2 \<bar>v\<bar>\<rfloor> < 15"
    by (simp add: floor_less_iff)
  then have e: "e \<le> 14"
    by (simp add: e_def f32_exponent_def)
  then have em: "e - 23 = - int m"
    by (simp add: m_def)
  have u: "u = 1 / 2 ^ m"
    by (simp add: u_def em power_int_minus_divide)
  then have upos: "0 < u"
    by simp
  define N :: int where "N = 32767 * 2 ^ m"
  have Nu: "of_int N * u = 32767" "of_int N = 32767 / u"
    by (simp_all add: N_def u)
  from assms have "- 32767 \<le> v" "v \<le> 32767"
    by simp_all
  then have "of_int (- N) \<le> v / u" "v / u \<le> of_int N"
    using upos by (simp_all add: Nu(2) divide_le_cancel le_divide_eq pos_divide_le_eq)
  from py_round_bounds [OF this] have "- N \<le> py_round (v / u)" "py_round (v / u) \<le> N"
    by simp_all
  then have "of_int (- N) * u \<le> of_int (py_round (v / u)) * u"
    and "of_int (py_round (v / u)) * u \<le> of_int N * u"
    using upos by (simp_all only: mult_le_cancel_right_pos of_int_le_iff)
  moreover have "f32_round v = of_int (py_round (v / u)) * u"
    using False by (simp add: f32_round_def Let_def u_def e_def)
  ultimately show ?thesis
    using Nu(1) by simp
qed

lemma f32_round_half_scale: "f32_round (32767 / 2) = 32767 / 2"
  by (subst f32_round_eval [of 13]) (simp_all add: power_int_minus_divide)

lemma f32_round_quarter_scale: "f32_round (32767 / 4) = 32767 / 4"
  by (subst f32_round_eval [of 12]) (simp_all add: power_int_minus_divide)

lemma pcm16_payload_half: "tobytes (float_to_pcm16 [1 / 2]) = [0, 64]"
  by (simp add: tobytes_def float_to_pcm16_def np_clip_def f32_round_half_scale py_round_def Let_def)

lemma pcm16_payload_quarter: "tobytes (float_to_pcm16 [1 / 4]) = [0, 32]"
  by (simp add: tobytes_def float_to_pcm16_def np_clip_def f32_round_quarter_scale py_round_def
      Let_def)

subsection \<open>Empty input\<close>

text \<open>
  Claim C3, as the code has it. On an empty waveform \<open>process\<close> returns the waveform as
  it is, whatever the configuration, the plugins, the sample rate and the mask. The
  report has the four entries that echo the request (\<open>request_stats\<close>, the start of
  every report) and the entry \<open>v2_empty_input = True\<close>: no key of any stage is in it, and
  no call was made to the noise-suppression module. No stage has run.
\<close>

theorem process_empty_input:
  "process cfg env [] sample_rate speech_mask =
     Inr ([], (request_stats cfg)(''v2_empty_input'' \<mapsto> SBool True), [])"
  by (simp add: process_def)

text \<open>
  With the default configuration the report on an empty waveform has five entries, not
  the single entry \<open>v2_empty_input\<close>.
\<close>

theorem process_empty_input_report:
  "process default_config (plugins_with apm_always_raises) [] 16000 None =
     Inr ([],
          [''v2_mode'' \<mapsto> SStr ''fast_dsp'',
           ''ns_engine_requested'' \<mapsto> SStr ''webrtc'',
           ''loudness_strategy_requested'' \<mapsto> SStr ''dynaudnorm'',
           ''dynamics_requested'' \<mapsto> SStr ''upward_comp'',
           ''v2_empty_input'' \<mapsto> SBool True],
          [])
   \<and> card (dom (fst (snd (projr (process default_config (plugins_with apm_always_raises)
                                  [] 16000 None))))) = 5"
  by (simp add: process_def request_stats_def default_config_def)

subsection \<open>Signals shorter than one frame\<close>

text \<open>
  Claim C10. When the webrtc module is present and the requested engine resolves to it
  (it is \<open>webrtc\<close>, or one of \<open>rnnoise\<close>, \<open>deepfilternet\<close>, \<open>speex\<close> whose own module is
  absent), a signal shorter than one 10 ms frame comes back unchanged with
  \<open>ns_backend = webrtc_apm\<close> and \<open>ns_frames_processed = 0\<close>, and without any call to
  the module: no instance is created and no frame, padded or not, is sent.
\<close>

theorem ns_sub_frame_passthrough:
  assumes "webrtc_apm env = Some M"
    and "ns_engine cfg = ''webrtc'' \<or> ns_engine cfg = ''rnnoise'' \<and> \<not> rnnoise env
         \<or> ns_engine cfg = ''deepfilternet'' \<and> \<not> deepfilternet env
         \<or> ns_engine cfg = ''speex'' \<and> \<not> speexdsp env"
    and "int (length signal) < max 1 (py_round (real_of_int sample_rate * (1 / 100)))"
  shows "apply_noise_suppression cfg env signal sample_rate =
           (signal, [''ns_backend'' \<mapsto> SStr ''webrtc_apm'',
                     ''ns_frames_processed'' \<mapsto> SInt 0], [])"
proof -
  from assms(3) have short: "length signal < ns_frame_size sample_rate"
    by (simp add: ns_frame_size_def)
  from assms(2) show ?thesis
    using assms(1) short by (auto simp: apply_noise_suppression_def Let_def)
qed

theorem ns_sub_frame_passthrough_witness:
  "webrtc_apm (plugins_with apm_always_raises) = Some apm_always_raises
   \<and> ns_engine default_config = ''webrtc''
   \<and> int (length [1 / 2 :: real]) < max 1 (py_round (real_of_int 16000 * (1 / 100)))
   \<and> apply_noise_suppression default_config (plugins_with apm_always_raises) [1 / 2] 16000 =
       ([1 / 2], [''ns_backend'' \<mapsto> SStr ''webrtc_apm'',
                  ''ns_frames_processed'' \<mapsto> SInt 0], [])"
proof -
  have a: "webrtc_apm (plugins_with apm_always_raises) = Some apm_always_raises"
    by (simp add: plugins_with_def)
  have b: "ns_engine default_config = ''webrtc''"
    by (simp add: default_config_def)
  have c: "int (length [1 / 2 :: real]) < max 1 (py_round (real_of_int 16000 * (1 / 100)))"
    by simp
  from ns_sub_frame_passthrough [OF a disjI1 [OF b] c] a b c show ?thesis
    by blast
qed

subsection \<open>The rms loudness strategy\<close>

lemma rms_target_db_cases:
  "rms_target_db cfg = (if mode cfg = ''high_quality'' then - 22 else - 24)"
  by (simp add: rms_target_db_def target_map_def)

text \<open>What \<open>estimate_rms_dbfs\<close> measures: the root of the mean square, in dBFS.\<close>

lemma estimate_rms_dbfs_measures:
  "signal \<noteq> [] \<Longrightarrow>
   estimate_rms_dbfs signal =
     20 * log 10 (max (sqrt (sum_list (map (\<lambda>x. x * x) signal) / real (length signal)))
                      (1 / 10 ^ 7))"
  by (simp add: estimate_rms_dbfs_def np_mean_def Let_def)

text \<open>A mean square of \<open>1 / 1000\<close> is the level - 30 dBFS.\<close>

lemma level_of_mean_square_thousandth:
  "20 * log 10 (max (sqrt (1 / 1000)) (1 / 10 ^ 7)) = - 30"
proof -
  have "sqrt (1 / 1000) = (10 powr (- 3)) powr (1 / 2)"
    by (simp add: powr_half_sqrt powr_minus_divide)
  also have "\<dots> = 10 powr (- 3 / 2)"
    by (simp add: powr_powr)
  finally have root: "sqrt (1 / 1000) = 10 powr (- 3 / 2)" .
  have "(1 :: real) / 10 ^ 7 = 10 powr (- 7)"
    by (simp add: powr_minus_divide)
  also have "\<dots> \<le> 10 powr (- 3 / 2)"
    by (rule powr_mono) simp_all
  finally have le: "(1 :: real) / 10 ^ 7 \<le> 10 powr (- 3 / 2)" .
  show ?thesis
    unfolding root using le by (simp add: max_absorb1 del: powr_minus)
qed

lemma quiet_signal_mean_square:
  "quiet_signal \<noteq> []"
  "sum_list (map (\<lambda>x. x * x) quiet_signal) / real (length quiet_signal) = 1 / 1000"
  by (simp_all add: quiet_signal_def sum_list_replicate)

text \<open>
  Claim C5. For a non-empty signal, \<open>apply_rms_target\<close> multiplies every sample by the
  one factor \<open>10 powr (g / 20)\<close> and reports \<open>g\<close> (rounded to two decimals) as
  \<open>applied_gain_db\<close>. Here \<open>g\<close> is the target minus the measured level, clamped to
  \<open>[0, max_gain_db]\<close>; the measured level is 20 times the decimal logarithm of the root
  of the mean square of the samples (not below \<open>1 / 10 ^ 7\<close>), and the target is - 22 dBFS
  in mode \<open>high_quality\<close> and - 24 dBFS in every other mode. So \<open>g\<close> is never negative
  and the factor is at least 1: the strategy never attenuates. In mode \<open>fast_dsp\<close> with
  \<open>max_gain_db = 18\<close>, a signal whose mean square is \<open>1 / 1000\<close>, which is - 30 dBFS,
  gets exactly 6 dB. The samples are real numbers.
\<close>

theorem rms_target_gain:
  assumes "signal \<noteq> []"
  shows "fst (apply_rms_target cfg signal)
           = map (\<lambda>x. x * 10 powr (rms_gain_db cfg signal / 20)) signal
   \<and> snd (apply_rms_target cfg signal) ''applied_gain_db''
       = Some (SNum (round_nd (rms_gain_db cfg signal) 2))
   \<and> rms_gain_db cfg signal
       = clamp ((if mode cfg = ''high_quality'' then - 22 else - 24)
                - 20 * log 10 (max (sqrt (sum_list (map (\<lambda>x. x * x) signal)
                                            / real (length signal)))
                                   (1 / 10 ^ 7)))
           0 (max_gain_db (targets cfg))
   \<and> 0 \<le> rms_gain_db cfg signal
   \<and> 1 \<le> 10 powr (rms_gain_db cfg signal / 20)
   \<and> (mode cfg = ''fast_dsp'' \<and> max_gain_db (targets cfg) = 18
        \<and> sum_list (map (\<lambda>x. x * x) signal) / real (length signal) = 1 / 1000
        \<longrightarrow> estimate_rms_dbfs signal = - 30
            \<and> rms_gain_db cfg signal = 6
            \<and> fst (apply_rms_target cfg signal) = map (\<lambda>x. x * 10 powr (6 / 20)) signal)"
proof -
  note level = estimate_rms_dbfs_measures [OF assms]
  have out: "fst (apply_rms_target cfg signal)
           = map (\<lambda>x. x * 10 powr (rms_gain_db cfg signal / 20)) signal"
    and stat: "snd (apply_rms_target cfg signal) ''applied_gain_db''
       = Some (SNum (round_nd (rms_gain_db cfg signal) 2))"
    by (simp_all add: apply_rms_target_def Let_def)
  have gain: "rms_gain_db cfg signal
       = clamp ((if mode cfg = ''high_quality'' then - 22 else - 24)
                - 20 * log 10 (max (sqrt (sum_list (map (\<lambda>x. x * x) signal)
                                            / real (length signal)))
                                   (1 / 10 ^ 7)))
           0 (max_gain_db (targets cfg))"
    by (simp only: rms_gain_db_def rms_target_db_cases level)
  have nonneg: "0 \<le> rms_gain_db cfg signal"
    by (simp add: rms_gain_db_def clamp_lower)
  then have factor: "1 \<le> 10 powr (rms_gain_db cfg signal / 20)"
    by (simp add: ge_one_powr_ge_zero)
  have example: "estimate_rms_dbfs signal = - 30 \<and> rms_gain_db cfg signal = 6
      \<and> fst (apply_rms_target cfg signal) = map (\<lambda>x. x * 10 powr (6 / 20)) signal"
    if "mode cfg = ''fast_dsp''" "max_gain_db (targets cfg) = 18"
      "sum_list (map (\<lambda>x. x * x) signal) / real (length signal) = 1 / 1000"
  proof -
    have l: "estimate_rms_dbfs signal = - 30"
      unfolding level that(3) by (rule level_of_mean_square_thousandth)
    then have g: "rms_gain_db cfg signal = 6"
      using that(1,2) by (simp add: rms_gain_db_def rms_target_db_cases clamp_def)
    from l g out show ?thesis
      by simp
  qed
  from out stat gain nonneg factor example show ?thesis
    by blast
qed

theorem rms_target_gain_witness:
  "quiet_signal \<noteq> []
   \<and> mode default_config = ''fast_dsp'' \<and> max_gain_db (targets default_config) = 18
   \<and> sum_list (map (\<lambda>x. x * x) quiet_signal) / real (length quiet_signal) = 1 / 1000
   \<and> estimate_rms_dbfs quiet_signal = - 30
   \<and> rms_gain_db default_config quiet_signal = 6
   \<and> fst (apply_rms_target default_config quiet_signal)
       = map (\<lambda>x. x * 10 powr (6 / 20)) quiet_signal"
proof -
  have cfg: "mode default_config = ''fast_dsp''" "max_gain_db (targets default_config) = 18"
    by (simp_all add: default_config_def)
  from rms_target_gain [OF quiet_signal_mean_square(1), of default_config]
    cfg quiet_signal_mean_square
  show ?thesis
    by blast
qed

subsection \<open>The dynaudnorm-like strategy and the speech mask\<close>

lemma length_scaled_frames:
  "length is = length fs \<Longrightarrow>
   length (concat (map (\<lambda>(idx, frame). map (h idx) frame) (zip is fs))) = length (concat fs)"
  by (induction "is" fs rule: list_induct2) simp_all

lemma length_apply_frame_gains:
  "length (apply_frame_gains frames smoothed) = length (concat frames)"
  unfolding apply_frame_gains_def
  using length_scaled_frames [of "[0 ..< length frames]" frames "\<lambda>idx x. x * smoothed ! idx"]
  by simp

lemma restore_non_speech_nth:
  assumes "length out = length signal" "length speech_mask = length signal" "i < length signal"
  shows "restore_non_speech out signal speech_mask ! i
           = (if speech_mask ! i then out ! i else signal ! i)"
  using assms by (simp add: restore_non_speech_def)

lemma length_restore_non_speech:
  "length out = length signal \<Longrightarrow> length speech_mask = length signal \<Longrightarrow>
   length (restore_non_speech out signal speech_mask) = length signal"
  by (simp add: restore_non_speech_def)

text \<open>
  Claim C6. Given a speech mask of the length of the signal, the output of
  \<open>apply_dynaudnorm_like\<close> has the length of the signal, and at every index where the
  mask is false the output sample equals the input sample: the frame gains reach the
  speech samples only. This holds for every configuration and every sample rate.
\<close>

theorem dynaudnorm_keeps_non_speech:
  assumes "length speech_mask = length signal"
  shows "length (fst (apply_dynaudnorm_like cfg signal sample_rate (Some speech_mask)))
           = length signal
         \<and> (\<forall>i < length signal. \<not> speech_mask ! i \<longrightarrow>
               fst (apply_dynaudnorm_like cfg signal sample_rate (Some speech_mask)) ! i
                 = signal ! i)"
proof -
  define frame_len_ms :: int where
    "frame_len_ms = (if mode cfg = ''high_quality'' then 500 else 250)"
  define frame_len where
    "frame_len = nat (max 1 (py_round (real_of_int sample_rate * (real_of_int frame_len_ms / 1000))))"
  have pos: "0 < frame_len" by (simp add: frame_len_def)
  define frames where "frames = frames_of frame_len signal"
  have cat: "concat frames = signal" using pos by (simp add: frames_def concat_frames_of)
  show ?thesis
  proof (cases "signal = []")
    case True
    then show ?thesis
      by (simp add: apply_dynaudnorm_like_def Let_def frames_of.simps split: prod.splits)
  next
    case False
    then have ne: "frames \<noteq> []" using pos by (simp add: frames_def frames_of_Nil_iff)
    obtain smoothed where out:
      "fst (apply_dynaudnorm_like cfg signal sample_rate (Some speech_mask))
         = restore_non_speech (apply_frame_gains frames smoothed) signal speech_mask"
      using ne assms cat
      by (auto simp: apply_dynaudnorm_like_def Let_def frames_def frame_len_def
          frame_len_ms_def length_apply_frame_gains split: prod.splits if_splits)
    have len: "length (apply_frame_gains frames smoothed) = length signal"
      by (simp add: length_apply_frame_gains cat)
    show ?thesis unfolding out
      using len assms by (simp add: restore_non_speech_nth length_restore_non_speech)
  qed
qed

theorem dynaudnorm_keeps_non_speech_witness:
  "length [True, False] = length [1 / 2, 1 / 4 :: real]
   \<and> (1 :: nat) < length [1 / 2, 1 / 4 :: real]
   \<and> \<not> [True, False] ! 1
   \<and> length (fst (apply_dynaudnorm_like default_config [1 / 2, 1 / 4] 16000
                     (Some [True, False]))) = 2
   \<and> fst (apply_dynaudnorm_like default_config [1 / 2, 1 / 4] 16000 (Some [True, False])) ! 1
       = 1 / 4"
proof -
  have len: "length [True, False] = length [1 / 2, 1 / 4 :: real]"
    by simp
  from dynaudnorm_keeps_non_speech [OF len, of default_config 16000]
  have "length (fst (apply_dynaudnorm_like default_config [1 / 2, 1 / 4] 16000
                       (Some [True, False]))) = 2"
    and "\<forall>i < length [1 / 2, 1 / 4 :: real]. \<not> [True, False] ! i \<longrightarrow>
           fst (apply_dynaudnorm_like default_config [1 / 2, 1 / 4] 16000
                  (Some [True, False])) ! i = [1 / 2, 1 / 4] ! i"
    by simp_all
  from this(1) this(2) [rule_format, of 1] show ?thesis
    by simp
qed

subsection \<open>The curve smoother\<close>

lemma length_gauss_kernel:
  "0 \<le> len \<Longrightarrow> length (gauss_kernel len) = nat (2 * (len div 2) + 1)"
  by (simp add: gauss_kernel_def Let_def)

text \<open>The kernel is normalised: its entries are positive numbers divided by their sum.\<close>

lemma gauss_kernel_sum:
  assumes "0 \<le> len"
  shows "sum_list (gauss_kernel len) = 1"
proof -
  define sigma where "sigma = max 1 (real_of_int len / 6)"
  define ks where
    "ks = map (\<lambda>x. exp (- (x ^ 2) / (2 * sigma * sigma)))
            (map real_of_int [- (len div 2) .. len div 2])"
  have ne: "ks \<noteq> []"
    using assms by (simp add: ks_def)
  have pos_all: "\<forall>k \<in> set ks. 0 < k"
    by (auto simp: ks_def)
  have pos: "0 < sum_list ks"
  proof -
    obtain k rest where ks: "ks = k # rest" using ne by (cases ks) auto
    have "0 \<le> sum_list rest"
      using pos_all ks by (intro sum_list_nonneg) (auto intro: less_imp_le)
    moreover have "0 < k" using pos_all ks by simp
    ultimately show ?thesis using ks by simp
  qed
  have "gauss_kernel len = map (\<lambda>k. k / sum_list ks) ks"
    by (simp add: gauss_kernel_def Let_def ks_def sigma_def)
  moreover have "sum_list (map (\<lambda>k. k / S) xs) = sum_list xs / S" for S :: real and xs
    by (induction xs) (simp_all add: add_divide_distrib)
  ultimately show ?thesis using pos by simp
qed

lemma length_conv_valid: "length (conv_valid a v) = length a + 1 - length v"
  by (simp add: conv_valid_def)

lemma sum_list_map2_replicate:
  "length w = n \<Longrightarrow> sum_list (map2 (*) (replicate n c) w) = c * sum_list (w :: real list)"
  by (induction w arbitrary: n) (auto simp: algebra_simps)

text \<open>Every full overlap of a constant sequence with \<open>v\<close> is the constant times the sum
  of \<open>v\<close>.\<close>

lemma conv_valid_replicate:
  assumes "length v \<le> m"
  shows "conv_valid (replicate m c) v = replicate (m + 1 - length v) (c * sum_list v)"
proof -
  have each: "sum_list (map2 (*) (take (length v) (drop k (replicate m c))) (rev v))
                = c * sum_list v"
    if "k < m + 1 - length v" for k
  proof -
    from that assms have "length v \<le> m - k" by arith
    then have "take (length v) (drop k (replicate m c)) = replicate (length v) c"
      by (simp add: min_def)
    then show ?thesis
      using sum_list_map2_replicate [of "rev v" "length v" c] by simp
  qed
  have "map (\<lambda>k. sum_list (map2 (*) (take (length v) (drop k (replicate m c))) (rev v)))
          [0 ..< m + 1 - length v]
        = map (\<lambda>k. c * sum_list v) [0 ..< m + 1 - length v]"
    by (rule map_cong [OF refl], rule each) simp
  then show ?thesis
    by (simp add: conv_valid_def map_replicate_const)
qed

text \<open>
  Claim C9. For every window parameter, (i) \<open>smooth_curve\<close> maps the sequence of \<open>N\<close>
  copies of a value \<open>c\<close> to itself, for every \<open>N\<close>, and (ii) the smoothed sequence has the
  length of its input, for every input. In (i) the samples are real numbers: the kernel
  sums to exactly 1, where in float32 it sums to 1 up to rounding.
\<close>

theorem smooth_curve_constant_and_length:
  "smooth_curve (replicate N c) window = replicate N c
   \<and> length (smooth_curve values window) = length values"
proof
  define len where "len = max 3 (window OR 1)"
  define half where "half = nat (len div 2)"
  have len3: "3 \<le> len" by (simp add: len_def)
  then have len0: "0 \<le> len" by simp
  have klen: "length (gauss_kernel len) = 2 * half + 1"
    using len0 by (simp add: length_gauss_kernel half_def nat_add_distrib nat_mult_distrib)
  show "smooth_curve (replicate N c) window = replicate N c"
  proof (cases "N \<le> 1")
    case True
    then show ?thesis by (simp add: smooth_curve_def)
  next
    case False
    then have hd_last: "hd (replicate N c) = c" "last (replicate N c) = c"
      by simp_all
    have padded: "replicate half c @ replicate N c @ replicate half c = replicate (N + 2 * half) c"
      by (simp add: replicate_add [symmetric] add.commute add.left_commute mult_2)
    have le: "length (gauss_kernel len) \<le> N + 2 * half"
      using False klen by simp
    show ?thesis
      using False le
      by (simp add: smooth_curve_def Let_def len_def [symmetric] half_def [symmetric]
          hd_last padded np_convolve_valid_def conv_valid_replicate gauss_kernel_sum [OF len0] klen)
  qed
  show "length (smooth_curve values window) = length values"
  proof (cases "length values \<le> 1")
    case True
    then show ?thesis by (simp add: smooth_curve_def)
  next
    case False
    then show ?thesis
      by (simp add: smooth_curve_def Let_def len_def [symmetric] half_def [symmetric]
          np_convolve_valid_def length_conv_valid klen)
  qed
qed

subsection \<open>The upward compressor\<close>

lemma length_compressor_loop [simp]: "length (compressor_loop a r mg env xs) = length xs"
  by (induction xs arbitrary: env) (simp_all add: Let_def)

lemma compressor_loop_nth:
  assumes "1 \<le> mg" and "i < length xs"
  shows "1 \<le> fst (compressor_loop a r mg env xs ! i)
         \<and> fst (compressor_loop a r mg env xs ! i) \<le> mg
         \<and> snd (compressor_loop a r mg env xs ! i) = xs ! i * fst (compressor_loop a r mg env xs ! i)"
  using assms(2)
proof (induction xs arbitrary: env i)
  case Nil
  then show ?case by simp
next
  case (Cons x xs)
  show ?case
  proof (cases i)
    case 0
    then show ?thesis
      using assms(1) by (simp add: Let_def clamp_lower clamp_upper)
  next
    case (Suc j)
    with Cons.prems have "j < length xs" by simp
    from Cons.IH [OF this] Suc show ?thesis
      by (simp add: Let_def)
  qed
qed

lemma compressor_max_gain_ge_1:
  "0 \<le> max_gain_db (targets cfg) \<Longrightarrow> 1 \<le> compressor_max_gain cfg"
  by (simp add: compressor_max_gain_def ge_one_powr_ge_zero)

text \<open>
  Claim C4. When \<open>max_gain_db\<close> is not negative, the upward compressor returns a signal
  (it does not raise) of the length of its input, and for every index \<open>i\<close> the output
  sample is the input sample times the gain \<open>g\<close> of that sample, with
  \<open>1 \<le> g \<le> 10 powr (min max_gain_db 18 / 20)\<close>. So the magnitude of a sample never
  decreases and grows by at most that ceiling. The samples are real numbers.
\<close>

theorem upward_compressor_gain_bounds:
  assumes "0 \<le> max_gain_db (targets cfg)" and "i < length signal"
  shows "\<not> isl (apply_upward_compressor cfg signal)
         \<and> length (fst (projr (apply_upward_compressor cfg signal))) = length signal
         \<and> fst (projr (apply_upward_compressor cfg signal)) ! i
             = signal ! i * fst (compressor_trace cfg signal ! i)
         \<and> 1 \<le> fst (compressor_trace cfg signal ! i)
         \<and> fst (compressor_trace cfg signal ! i) \<le> 10 powr (min (max_gain_db (targets cfg)) 18 / 20)
         \<and> \<bar>signal ! i\<bar> \<le> \<bar>fst (projr (apply_upward_compressor cfg signal)) ! i\<bar>
         \<and> \<bar>fst (projr (apply_upward_compressor cfg signal)) ! i\<bar>
             \<le> 10 powr (min (max_gain_db (targets cfg)) 18 / 20) * \<bar>signal ! i\<bar>"
proof -
  define g where "g = fst (compressor_trace cfg signal ! i)"
  have len: "length (compressor_trace cfg signal) = length signal"
    by (simp add: compressor_trace_def)
  from assms(2) have ne: "compressor_trace cfg signal \<noteq> []"
    using len by auto
  have res: "apply_upward_compressor cfg signal
      = Inr (map snd (compressor_trace cfg signal), snd (projr (apply_upward_compressor cfg signal)))"
    using ne by (simp add: apply_upward_compressor_def Let_def)
  have out: "fst (projr (apply_upward_compressor cfg signal)) = map snd (compressor_trace cfg signal)"
    by (subst res) simp
  have notl: "\<not> isl (apply_upward_compressor cfg signal)"
    by (subst res) simp
  from compressor_loop_nth [OF compressor_max_gain_ge_1 [OF assms(1)] assms(2)]
  have g1: "1 \<le> g" and g2: "g \<le> compressor_max_gain cfg"
    and o: "snd (compressor_trace cfg signal ! i) = signal ! i * g"
    by (simp_all add: g_def compressor_trace_def)
  have oi: "fst (projr (apply_upward_compressor cfg signal)) ! i = signal ! i * g"
    using assms(2) len o by (simp add: out)
  have abs_o: "\<bar>signal ! i * g\<bar> = g * \<bar>signal ! i\<bar>"
    using g1 by (simp add: abs_mult)
  have lo: "\<bar>signal ! i\<bar> \<le> g * \<bar>signal ! i\<bar>"
    using g1 by (simp add: mult_le_cancel_right1)
  have hi: "g * \<bar>signal ! i\<bar> \<le> compressor_max_gain cfg * \<bar>signal ! i\<bar>"
    using g2 by (simp add: mult_right_mono)
  show ?thesis
    using notl oi g1 g2 lo hi len
    by (simp add: out abs_o g_def [symmetric] compressor_max_gain_def)
qed

theorem upward_compressor_gain_bounds_witness:
  "0 \<le> max_gain_db (targets default_config) \<and> (0 :: nat) < length [1 / 100 :: real]
   \<and> \<not> isl (apply_upward_compressor default_config [1 / 100])
   \<and> \<bar>[1 / 100 :: real] ! 0\<bar> \<le> \<bar>fst (projr (apply_upward_compressor default_config [1 / 100])) ! 0\<bar>
   \<and> \<bar>fst (projr (apply_upward_compressor default_config [1 / 100])) ! 0\<bar>
       \<le> 10 powr (min (max_gain_db (targets default_config)) 18 / 20) * \<bar>[1 / 100 :: real] ! 0\<bar>"
proof -
  have a: "0 \<le> max_gain_db (targets default_config)"
    by (simp add: default_config_def)
  have b: "(0 :: nat) < length [1 / 100 :: real]"
    by simp
  from upward_compressor_gain_bounds [OF a b] a b show ?thesis
    by blast
qed

subsection \<open>A failing noise-suppression backend\<close>

text \<open>What the stage returns once it reaches the webrtc module.\<close>

lemma ns_reaches_backend:
  assumes "webrtc_apm env = Some M"
    and "ns_engine cfg = ''webrtc'' \<or> ns_engine cfg = ''rnnoise'' \<and> \<not> rnnoise env
         \<or> ns_engine cfg = ''deepfilternet'' \<and> \<not> deepfilternet env
         \<or> ns_engine cfg = ''speex'' \<and> \<not> speexdsp env"
    and "\<not> length signal < ns_frame_size sample_rate"
  shows "apply_noise_suppression cfg env signal sample_rate =
     (case apm_init M sample_rate (map_ns_level cfg) (fst (map_agc_params cfg))
             (snd (map_agc_params cfg)) of
        (calls, Inl exc) \<Rightarrow>
          (signal, [''ns_backend'' \<mapsto> SStr ''error'',
                    ''ns_error'' \<mapsto> SStr (''init_failed: '' @ exc)], calls)
      | (calls, Inr apm) \<Rightarrow>
          (case ns_loop M (ns_frame_size sample_rate) apm
                  (frames_of (ns_frame_size sample_rate) signal) [] 0 calls of
             (calls', Inl exc) \<Rightarrow>
               (signal, [''ns_backend'' \<mapsto> SStr ''error'',
                         ''ns_error'' \<mapsto> SStr (''process_failed: '' @ exc)], calls')
           | (calls', Inr (processed, frames_processed)) \<Rightarrow>
               (processed,
                [''ns_backend'' \<mapsto> SStr ''webrtc_apm'',
                 ''ns_frames_processed'' \<mapsto> SInt (int frames_processed),
                 ''ns_level'' \<mapsto> SInt (map_ns_level cfg),
                 ''agc_target'' \<mapsto> SInt (fst (map_agc_params cfg)),
                 ''agc_level'' \<mapsto> SInt (snd (map_agc_params cfg))], calls')))"
  using assms(2) assms(1) assms(3)
  by (auto simp: apply_noise_suppression_def Let_def split: prod.splits sum.splits)

text \<open>Whichever of the five set-up calls raises, the first \<^verbatim>\<open>try\<close> block ends with its
  exception.\<close>

lemma apm_init_raises:
  assumes "apm_new M 0 True 1 False = Inl exc
     \<or> apm_new M 0 True 1 False = Inr i_new
       \<and> (set_stream_format M i_new sample_rate 1 sample_rate 1 = Inl exc
     \<or> set_stream_format M i_new sample_rate 1 sample_rate 1 = Inr i_fmt
       \<and> (set_ns_level M i_fmt lvl = Inl exc
     \<or> set_ns_level M i_fmt lvl = Inr i_ns
       \<and> (set_agc_target M i_ns tgt = Inl exc
     \<or> set_agc_target M i_ns tgt = Inr i_tgt \<and> set_agc_level M i_tgt agc = Inl exc)))"
  shows "snd (apm_init M sample_rate lvl tgt agc) = Inl exc"
  using assms by (auto simp: apm_init_def)

lemma apm_init_returns:
  assumes "apm_new M 0 True 1 False = Inr i_new"
    and "set_stream_format M i_new sample_rate 1 sample_rate 1 = Inr i_fmt"
    and "set_ns_level M i_fmt lvl = Inr i_ns"
    and "set_agc_target M i_ns tgt = Inr i_tgt"
    and "set_agc_level M i_tgt agc = Inr i_agc"
  shows "apm_init M sample_rate lvl tgt agc =
           ([CallNew, CallSetStreamFormat sample_rate, CallSetNsLevel lvl,
             CallSetAgcTarget tgt, CallSetAgcLevel agc], Inr i_agc)"
  using assms by (simp add: apm_init_def)

text \<open>
  The frame loop, when the module takes the first \<open>k\<close> frames (from the instance \<open>st j\<close>
  to \<open>st (Suc j)\<close>, returning whole int16 samples) and frame \<open>k\<close> raises, in the call or
  in the decoding of a payload of odd length: the loop ends with that exception,
  whatever it has processed, after \<open>k + 1\<close> calls.
\<close>

lemma ns_loop_raises_at:
  assumes "k < length frames"
    and "\<forall>j < k. process_stream M (st j) (tobytes (float_to_pcm16 (pad_to fs (frames ! j))))
                    = Inr (outp j, st (Suc j)) \<and> even (length (outp j))"
    and "process_stream M (st k) (tobytes (float_to_pcm16 (pad_to fs (frames ! k)))) = Inl exc
         \<or> (\<exists>out a. process_stream M (st k) (tobytes (float_to_pcm16 (pad_to fs (frames ! k))))
                       = Inr (out, a)
               \<and> odd (length out)
               \<and> exc = ''buffer size must be a multiple of element size'')"
  shows "ns_loop M fs (st 0) frames processed n calls =
           (calls @ map (\<lambda>j. CallProcessStream
                               (tobytes (float_to_pcm16 (pad_to fs (frames ! j))))) [0 ..< Suc k],
            Inl exc)"
  using assms
proof (induction frames arbitrary: k st outp processed n calls)
  case Nil
  then show ?case by simp
next
  case (Cons c rest)
  show ?case
  proof (cases k)
    case 0
    with Cons.prems(3)
    have "process_frame M fs (st 0) (pad_to fs c)
            = (tobytes (float_to_pcm16 (pad_to fs c)), Inl exc)"
      by (auto simp: process_frame_def Let_def frombuffer_def)
    with 0 show ?thesis
      by (simp add: Let_def)
  next
    case (Suc k')
    from Cons.prems(2) Suc
    have first: "process_stream M (st 0) (tobytes (float_to_pcm16 (pad_to fs c)))
                   = Inr (outp 0, st (Suc 0))" "even (length (outp 0))"
      by auto
    have k': "k' < length rest"
      using Cons.prems(1) Suc by simp
    have ok: "\<forall>j < k'. process_stream M (st (Suc j))
                      (tobytes (float_to_pcm16 (pad_to fs (rest ! j))))
                    = Inr (outp (Suc j), st (Suc (Suc j))) \<and> even (length (outp (Suc j)))"
      using Cons.prems(2) Suc by auto
    have bad: "process_stream M (st (Suc k')) (tobytes (float_to_pcm16 (pad_to fs (rest ! k'))))
                 = Inl exc
         \<or> (\<exists>out a. process_stream M (st (Suc k'))
                        (tobytes (float_to_pcm16 (pad_to fs (rest ! k')))) = Inr (out, a)
               \<and> odd (length out)
               \<and> exc = ''buffer size must be a multiple of element size'')"
      using Cons.prems(3) Suc by simp
    note IH = Cons.IH [of k' "\<lambda>j. st (Suc j)" "\<lambda>j. outp (Suc j)", OF k' ok bad]
    have shift: "map (\<lambda>j. CallProcessStream
                           (tobytes (float_to_pcm16 (pad_to fs ((c # rest) ! j))))) [0 ..< Suc k]
        = CallProcessStream (tobytes (float_to_pcm16 (pad_to fs c)))
          # map (\<lambda>j. CallProcessStream
                         (tobytes (float_to_pcm16 (pad_to fs (rest ! j))))) [0 ..< Suc k']"
      unfolding Suc by (subst map_upt_Suc) simp
    show ?thesis
      unfolding shift
      using first by (simp add: Let_def process_frame_def frombuffer_def IH)
  qed
qed

text \<open>
  Claim C2. Take a configuration and plugins for which the stage reaches the webrtc
  module \<open>M\<close>, and a signal of at least one frame.

  \<^item> If one of the five set-up calls raises \<open>exc\<close> (the constructor, or a later call on
    the instance that the calls before it returned), the stage returns the input signal
    as it is, with \<open>ns_backend = error\<close> and \<open>ns_error = init_failed: exc\<close>.
  \<^item> If the set-up succeeds, the module takes the frames before frame \<open>k\<close> and frame \<open>k\<close>
    raises \<open>exc\<close>, for any frame \<open>k\<close> of the signal (in \<open>process_stream\<close>, or in the
    decoding of a payload of odd length), the stage returns the input signal as it is
    again, with \<open>ns_error = process_failed: exc\<close>, after exactly \<open>k + 1\<close> calls of
    \<open>process_stream\<close>: none of the \<open>k\<close> frames already processed is in the result.

  The stage has no error result: in both cases it returns a value to its caller.
\<close>

theorem ns_backend_failure_returns_input:
  fixes M :: "'s apm_module" and st :: "nat \<Rightarrow> 's" and outp :: "nat \<Rightarrow> 8 word list"
    and cfg :: config and signal :: "real list" and sample_rate :: int
  defines "fs \<equiv> ns_frame_size sample_rate"
    and "lvl \<equiv> map_ns_level cfg"
    and "tgt \<equiv> fst (map_agc_params cfg)"
    and "agc \<equiv> snd (map_agc_params cfg)"
  defines "payload \<equiv> \<lambda>j. tobytes (float_to_pcm16 (pad_to fs (frames_of fs signal ! j)))"
  assumes "webrtc_apm env = Some M"
    and "ns_engine cfg = ''webrtc'' \<or> ns_engine cfg = ''rnnoise'' \<and> \<not> rnnoise env
         \<or> ns_engine cfg = ''deepfilternet'' \<and> \<not> deepfilternet env
         \<or> ns_engine cfg = ''speex'' \<and> \<not> speexdsp env"
    and "\<not> length signal < ns_frame_size sample_rate"
  shows "(apm_new M 0 True 1 False = Inl exc
          \<or> apm_new M 0 True 1 False = Inr i_new
            \<and> (set_stream_format M i_new sample_rate 1 sample_rate 1 = Inl exc
          \<or> set_stream_format M i_new sample_rate 1 sample_rate 1 = Inr i_fmt
            \<and> (set_ns_level M i_fmt lvl = Inl exc
          \<or> set_ns_level M i_fmt lvl = Inr i_ns
            \<and> (set_agc_target M i_ns tgt = Inl exc
          \<or> set_agc_target M i_ns tgt = Inr i_tgt \<and> set_agc_level M i_tgt agc = Inl exc)))
          \<longrightarrow> fst (apply_noise_suppression cfg env signal sample_rate) = signal
              \<and> fst (snd (apply_noise_suppression cfg env signal sample_rate))
                  = [''ns_backend'' \<mapsto> SStr ''error'',
                     ''ns_error'' \<mapsto> SStr (''init_failed: '' @ exc)])
       \<and> (apm_new M 0 True 1 False = Inr i_new
          \<and> set_stream_format M i_new sample_rate 1 sample_rate 1 = Inr i_fmt
          \<and> set_ns_level M i_fmt lvl = Inr i_ns
          \<and> set_agc_target M i_ns tgt = Inr i_tgt
          \<and> set_agc_level M i_tgt agc = Inr (st 0)
          \<and> k < length (frames_of fs signal)
          \<and> (\<forall>j < k. process_stream M (st j) (payload j) = Inr (outp j, st (Suc j))
                        \<and> even (length (outp j)))
          \<and> (process_stream M (st k) (payload k) = Inl exc
              \<or> (\<exists>out a. process_stream M (st k) (payload k) = Inr (out, a)
                    \<and> odd (length out)
                    \<and> exc = ''buffer size must be a multiple of element size''))
          \<longrightarrow> apply_noise_suppression cfg env signal sample_rate =
                (signal,
                 [''ns_backend'' \<mapsto> SStr ''error'',
                  ''ns_error'' \<mapsto> SStr (''process_failed: '' @ exc)],
                 [CallNew, CallSetStreamFormat sample_rate, CallSetNsLevel lvl,
                  CallSetAgcTarget tgt, CallSetAgcLevel agc]
                 @ map (\<lambda>j. CallProcessStream (payload j)) [0 ..< Suc k]))"
proof (intro conjI impI)
  note reach = ns_reaches_backend [OF assms(6-8)]
  {
    assume "apm_new M 0 True 1 False = Inl exc
          \<or> apm_new M 0 True 1 False = Inr i_new
            \<and> (set_stream_format M i_new sample_rate 1 sample_rate 1 = Inl exc
          \<or> set_stream_format M i_new sample_rate 1 sample_rate 1 = Inr i_fmt
            \<and> (set_ns_level M i_fmt lvl = Inl exc
          \<or> set_ns_level M i_fmt lvl = Inr i_ns
            \<and> (set_agc_target M i_ns tgt = Inl exc
          \<or> set_agc_target M i_ns tgt = Inr i_tgt \<and> set_agc_level M i_tgt agc = Inl exc)))"
    from apm_init_raises [OF this]
    obtain calls where "apm_init M sample_rate lvl tgt agc = (calls, Inl exc)"
      by (cases "apm_init M sample_rate lvl tgt agc") auto
    then have "apply_noise_suppression cfg env signal sample_rate =
        (signal, [''ns_backend'' \<mapsto> SStr ''error'',
                  ''ns_error'' \<mapsto> SStr (''init_failed: '' @ exc)], calls)"
      by (simp add: reach lvl_def tgt_def agc_def)
    then show "fst (apply_noise_suppression cfg env signal sample_rate) = signal"
      and "fst (snd (apply_noise_suppression cfg env signal sample_rate))
             = [''ns_backend'' \<mapsto> SStr ''error'',
                ''ns_error'' \<mapsto> SStr (''init_failed: '' @ exc)]"
      by simp_all
  }
  assume run: "apm_new M 0 True 1 False = Inr i_new
          \<and> set_stream_format M i_new sample_rate 1 sample_rate 1 = Inr i_fmt
          \<and> set_ns_level M i_fmt lvl = Inr i_ns
          \<and> set_agc_target M i_ns tgt = Inr i_tgt
          \<and> set_agc_level M i_tgt agc = Inr (st 0)
          \<and> k < length (frames_of fs signal)
          \<and> (\<forall>j < k. process_stream M (st j) (payload j) = Inr (outp j, st (Suc j))
                        \<and> even (length (outp j)))
          \<and> (process_stream M (st k) (payload k) = Inl exc
              \<or> (\<exists>out a. process_stream M (st k) (payload k) = Inr (out, a)
                    \<and> odd (length out)
                    \<and> exc = ''buffer size must be a multiple of element size''))"
  then have init: "apm_init M sample_rate lvl tgt agc =
           ([CallNew, CallSetStreamFormat sample_rate, CallSetNsLevel lvl,
             CallSetAgcTarget tgt, CallSetAgcLevel agc], Inr (st 0))"
    using apm_init_returns [of M i_new sample_rate i_fmt lvl i_ns tgt i_tgt agc "st 0"] by simp
  from run have k: "k < length (frames_of fs signal)"
    by simp
  from run have ok: "\<forall>j < k. process_stream M (st j)
                        (tobytes (float_to_pcm16 (pad_to fs (frames_of fs signal ! j))))
                      = Inr (outp j, st (Suc j)) \<and> even (length (outp j))"
    by (simp add: payload_def)
  from run have bad: "process_stream M (st k)
            (tobytes (float_to_pcm16 (pad_to fs (frames_of fs signal ! k)))) = Inl exc
         \<or> (\<exists>out a. process_stream M (st k)
                        (tobytes (float_to_pcm16 (pad_to fs (frames_of fs signal ! k))))
                       = Inr (out, a)
               \<and> odd (length out)
               \<and> exc = ''buffer size must be a multiple of element size'')"
    by (simp add: payload_def)
  note loop = ns_loop_raises_at [OF k ok bad, of "[]" 0
      "[CallNew, CallSetStreamFormat sample_rate, CallSetNsLevel lvl,
        CallSetAgcTarget tgt, CallSetAgcLevel agc]"]
  show "apply_noise_suppression cfg env signal sample_rate =
                (signal,
                 [''ns_backend'' \<mapsto> SStr ''error'',
                  ''ns_error'' \<mapsto> SStr (''process_failed: '' @ exc)],
                 [CallNew, CallSetStreamFormat sample_rate, CallSetNsLevel lvl,
                  CallSetAgcTarget tgt, CallSetAgcLevel agc]
                 @ map (\<lambda>j. CallProcessStream (payload j)) [0 ..< Suc k])"
    using init loop
    by (simp add: reach lvl_def [symmetric] tgt_def [symmetric] agc_def [symmetric]
        fs_def [symmetric] payload_def del: ns_loop.simps upt_Suc)
qed

lemma ns_frame_size_100: "ns_frame_size 100 = 1"
  by (simp add: ns_frame_size_def)

lemma frames_of_two: "frames_of (Suc 0) [x, y] = [[x], [y]]"
  by (simp add: frames_of.simps)

theorem ns_backend_failure_returns_input_witness:
  "apm_new apm_always_raises 0 True 1 False = Inl ''raised''
   \<and> apply_noise_suppression default_config (plugins_with apm_always_raises) [1 / 2, 1 / 4] 100 =
     ([1 / 2, 1 / 4],
      [''ns_backend'' \<mapsto> SStr ''error'', ''ns_error'' \<mapsto> SStr ''init_failed: raised''],
      [CallNew])
   \<and> process_stream apm_fails_on_second_frame 0 [0, 64] = Inr ([], 1)
   \<and> process_stream apm_fails_on_second_frame 1 [0, 32] = Inl ''boom''
   \<and> apply_noise_suppression default_config (plugins_with apm_fails_on_second_frame)
       [1 / 2, 1 / 4] 100 =
     ([1 / 2, 1 / 4],
      [''ns_backend'' \<mapsto> SStr ''error'', ''ns_error'' \<mapsto> SStr ''process_failed: boom''],
      [CallNew, CallSetStreamFormat 100, CallSetNsLevel 1, CallSetAgcTarget 20,
       CallSetAgcLevel 58, CallProcessStream [0, 64], CallProcessStream [0, 32]])"
proof -
  have eng: "ns_engine default_config = ''webrtc''"
    by (simp add: default_config_def)
  have long: "\<not> length [1 / 2, 1 / 4 :: real] < ns_frame_size 100"
    by (simp add: ns_frame_size_100)
  have lvl: "map_ns_level default_config = 1" "map_agc_params default_config = (20, 58)"
    by (simp_all add: map_ns_level_def map_agc_params_def default_config_def)
  have m1: "webrtc_apm (plugins_with apm_always_raises) = Some apm_always_raises"
    by (simp add: plugins_with_def)
  have m2: "webrtc_apm (plugins_with apm_fails_on_second_frame) = Some apm_fails_on_second_frame"
    by (simp add: plugins_with_def)
  have new: "apm_new apm_always_raises 0 True 1 False = Inl ''raised''"
    by (simp add: apm_always_raises_def)
  have calls1: "snd (snd (apply_noise_suppression default_config
      (plugins_with apm_always_raises) [1 / 2, 1 / 4] 100)) = [CallNew]"
    using long
    by (simp add: apply_noise_suppression_def Let_def default_config_def plugins_with_def
        map_ns_level_def map_agc_params_def apm_init_def apm_always_raises_def)
  from ns_backend_failure_returns_input [OF m1 disjI1 [OF eng] long,
      where exc = "''raised''"] new calls1
  have one: "apply_noise_suppression default_config (plugins_with apm_always_raises)
      [1 / 2, 1 / 4] 100 =
     ([1 / 2, 1 / 4],
      [''ns_backend'' \<mapsto> SStr ''error'', ''ns_error'' \<mapsto> SStr ''init_failed: raised''],
      [CallNew])"
    by (simp add: prod_eq_iff)
  have p0: "process_stream apm_fails_on_second_frame 0 [0, 64] = Inr ([], 1)"
    and p1: "process_stream apm_fails_on_second_frame 1 [0, 32] = Inl ''boom''"
    by (simp_all add: apm_fails_on_second_frame_def)
  have ready: "apm_new apm_fails_on_second_frame 0 True 1 False = Inr 0"
    "set_stream_format apm_fails_on_second_frame 0 100 1 100 1 = Inr 0"
    "set_ns_level apm_fails_on_second_frame 0 1 = Inr 0"
    "set_agc_target apm_fails_on_second_frame 0 20 = Inr 0"
    "set_agc_level apm_fails_on_second_frame 0 58 = Inr 0"
    by (simp_all add: apm_fails_on_second_frame_def)
  from ns_backend_failure_returns_input [OF m2 disjI1 [OF eng] long,
      where i_new = 0 and i_fmt = 0 and i_ns = 0 and i_tgt = 0 and st = "\<lambda>j. j" and k = 1
        and outp = "\<lambda>j. []" and exc = "''boom''"]
    ready p0 p1
  have two: "apply_noise_suppression default_config (plugins_with apm_fails_on_second_frame)
       [1 / 2, 1 / 4] 100 =
     ([1 / 2, 1 / 4],
      [''ns_backend'' \<mapsto> SStr ''error'', ''ns_error'' \<mapsto> SStr ''process_failed: boom''],
      [CallNew, CallSetStreamFormat 100, CallSetNsLevel 1, CallSetAgcTarget 20,
       CallSetAgcLevel 58, CallProcessStream [0, 64], CallProcessStream [0, 32]])"
    by (simp add: lvl ns_frame_size_100 frames_of_two pad_to_def pcm16_payload_half
        pcm16_payload_quarter)
  from new one p0 p1 two show ?thesis
    by simp
qed

subsection \<open>The PCM16 conversion\<close>

lemma py_round_vs_half_away:
  "py_round y \<noteq> round_half_away y \<longleftrightarrow>
     y - of_int \<lfloor>y\<rfloor> = 1 / 2 \<and> (if 0 \<le> y then even \<lfloor>y\<rfloor> else odd \<lfloor>y\<rfloor>)"
proof -
  define f where "f = \<lfloor>y\<rfloor>"
  define d where "d = y - of_int f"
  have d: "0 \<le> d" "d < 1" and y: "y = of_int f + d"
    by (simp_all add: d_def f_def) linarith
  have up: "\<lfloor>y + 1 / 2\<rfloor> = (if d < 1 / 2 then f else f + 1)"
    using d by (auto simp: y floor_unique)
  have dn: "\<lceil>y - 1 / 2\<rceil> = (if d \<le> 1 / 2 then f else f + 1)"
    using d by (auto simp: y intro!: ceiling_unique)
  show ?thesis
    unfolding py_round_def round_half_away_def Let_def f_def [symmetric] d_def [symmetric] up dn
    by auto
qed

lemma sint_pcm16: "- 32767 \<le> k \<Longrightarrow> k \<le> 32767 \<Longrightarrow> sint (word_of_int k :: 16 word) = k"
  by (simp add: sint_sbintrunc' signed_take_bit_int_eq_self)

lemma pcm16_sample:
  "sint (word_of_int (py_round (f32_round (min (max x (- 1)) 1 * 32767))) :: 16 word)
     = py_round (f32_round (min (max x (- 1)) 1 * 32767))
   \<and> - 32767 \<le> py_round (f32_round (min (max x (- 1)) 1 * 32767))
   \<and> py_round (f32_round (min (max x (- 1)) 1 * 32767)) \<le> 32767"
proof -
  have "- 1 \<le> min (max x (- 1)) 1" "min (max x (- 1)) 1 \<le> 1"
    by simp_all
  then have "\<bar>min (max x (- 1)) 1 * 32767\<bar> \<le> 32767"
    by (simp add: abs_le_iff)
  from f32_round_bounds [OF this]
  have "real_of_int (- 32767) \<le> f32_round (min (max x (- 1)) 1 * 32767)"
    and "f32_round (min (max x (- 1)) 1 * 32767) \<le> real_of_int 32767"
    by simp_all
  from py_round_bounds [OF this] show ?thesis
    by (simp add: sint_pcm16)
qed

text \<open>
  Claim C7, as the code has it. \<open>float_to_pcm16\<close> keeps the length; sample \<open>i\<close> is
  the input sample clipped to \<open>[-1, 1]\<close>, scaled by 32767 in float32 and rounded by
  \<open>py_round\<close>, so it lies in \<open>[-32767, 32767]\<close> and the cast to int16 never wraps.
  \<open>py_round\<close> is rounding to nearest with a tie to the even neighbour: it is within 1/2
  of its argument, even on a tie, and it differs from rounding half away from zero
  exactly on the ties whose neighbour towards zero is even. The frame sent to the module
  is the bytes of these samples, and when the module returns a payload of whole int16
  samples, the returned frame is every sample divided by 32768, padded with zeros to the
  frame size.
\<close>

theorem pcm16_conversion:
  "length (float_to_pcm16 signal) = length signal
   \<and> (\<forall>i < length signal.
         sint (float_to_pcm16 signal ! i)
           = py_round (f32_round (min (max (signal ! i) (- 1)) 1 * 32767))
         \<and> - 32767 \<le> sint (float_to_pcm16 signal ! i)
         \<and> sint (float_to_pcm16 signal ! i) \<le> 32767)
   \<and> \<bar>real_of_int (py_round y) - y\<bar> \<le> 1 / 2
   \<and> (y - of_int \<lfloor>y\<rfloor> = 1 / 2 \<longrightarrow> even (py_round y))
   \<and> (py_round y \<noteq> round_half_away y \<longleftrightarrow>
         y - of_int \<lfloor>y\<rfloor> = 1 / 2 \<and> (if 0 \<le> y then even \<lfloor>y\<rfloor> else odd \<lfloor>y\<rfloor>))
   \<and> fst (process_frame M frame_size apm frame) = tobytes (float_to_pcm16 frame)
   \<and> (process_stream M apm (tobytes (float_to_pcm16 frame)) = Inr (out_payload, apm')
        \<and> even (length out_payload)
        \<longrightarrow> snd (process_frame M frame_size apm frame)
              = Inr (pad_to frame_size
                       (map (\<lambda>w. real_of_int (sint w) / 32768) (int16_of_bytes out_payload)),
                     apm'))"
proof -
  have a: "\<forall>i < length signal.
         sint (float_to_pcm16 signal ! i)
           = py_round (f32_round (min (max (signal ! i) (- 1)) 1 * 32767))
         \<and> - 32767 \<le> sint (float_to_pcm16 signal ! i)
         \<and> sint (float_to_pcm16 signal ! i) \<le> 32767"
    using pcm16_sample by (simp add: float_to_pcm16_def np_clip_def)
  have b: "process_stream M apm (tobytes (float_to_pcm16 frame)) = Inr (out_payload, apm')
        \<and> even (length out_payload)
        \<longrightarrow> snd (process_frame M frame_size apm frame)
              = Inr (pad_to frame_size
                       (map (\<lambda>w. real_of_int (sint w) / 32768) (int16_of_bytes out_payload)),
                     apm')"
    by (simp add: process_frame_def Let_def frombuffer_def)
  have c: "fst (process_frame M frame_size apm frame) = tobytes (float_to_pcm16 frame)"
    by (simp add: process_frame_def Let_def)
  have d: "length (float_to_pcm16 signal) = length signal"
    by (simp add: float_to_pcm16_def)
  from a b c d py_round_nearest [of y] py_round_tie_even [of y] py_round_vs_half_away [of y]
  show ?thesis by blast
qed

text \<open>
  The sample \<open>32769 / 2 ^ 31\<close> is a float32, and its product with 32767, rounded to
  float32, is the tie \<open>1 / 2\<close>.
\<close>

lemma f32_product_tie: "f32_round (1073741823 / 2147483648) = 1 / 2"
  by (subst f32_round_eval [of "- 2"])
    (simp_all add: power_int_minus_divide py_round_def Let_def)

lemma f32_product_above: "f32_round (3221225469 / 2147483648) = 3 / 2"
  by (subst f32_round_eval [of 0])
    (simp_all add: power_int_minus_divide py_round_def Let_def)

lemma f32_sample_tie:
  "f32_round (32769 / 2 ^ 31) = 32769 / 2 ^ 31"
  "f32_round (32769 / 2 ^ 31 * 32767) = 1 / 2"
proof -
  show "f32_round (32769 / 2 ^ 31) = 32769 / 2 ^ 31"
    by (subst f32_round_eval [of "- 16"]) (simp_all add: power_int_minus_divide)
  show "f32_round (32769 / 2 ^ 31 * 32767) = 1 / 2"
    by (simp add: f32_product_tie)
qed

lemma int16_of_bytes_half: "map sint (int16_of_bytes [0, 64]) = [16384]"
  by simp

theorem pcm16_conversion_witness:
  "(0 :: nat) < length [32769 / 2 ^ 31 :: real]
   \<and> sint (float_to_pcm16 [32769 / 2 ^ 31] ! 0) = 0
   \<and> 1 / 2 - of_int \<lfloor>1 / 2 :: real\<rfloor> = (1 / 2 :: real)
   \<and> even (py_round (1 / 2))
   \<and> py_round (1 / 2) \<noteq> round_half_away (1 / 2)
   \<and> process_stream apm_echo () (tobytes (float_to_pcm16 [1 / 2])) = Inr ([0, 64], ())
   \<and> even (length [0, 64 :: 8 word])
   \<and> process_frame apm_echo 1 () [1 / 2] = ([0, 64], Inr ([1 / 2], ()))"
proof -
  have ps: "process_stream apm_echo () (tobytes (float_to_pcm16 [1 / 2])) = Inr ([0, 64], ())"
    by (simp add: apm_echo_def pcm16_payload_half)
  have tie: "1 / 2 - of_int \<lfloor>1 / 2 :: real\<rfloor> = (1 / 2 :: real)"
    by simp
  have ev: "even (length [0, 64 :: 8 word])"
    by simp
  have r: "py_round (f32_round (min (max ([32769 / 2 ^ 31] ! 0) (- 1)) 1 * 32767)) = 0"
    by (simp add: f32_product_tie py_round_def Let_def)
  from pcm16_conversion [of "[32769 / 2 ^ 31]" "1 / 2" apm_echo 1 "()" "[1 / 2]" "[0, 64]" "()"]
  have "sint (float_to_pcm16 [32769 / 2 ^ 31] ! 0) = 0"
    and "even (py_round (1 / 2))"
    and "py_round (1 / 2) \<noteq> round_half_away (1 / 2)"
    and "fst (process_frame apm_echo 1 () [1 / 2]) = [0, 64]"
    and "snd (process_frame apm_echo 1 () [1 / 2]) = Inr ([1 / 2], ())"
    using ps tie ev r int16_of_bytes_half
    by (simp_all add: pcm16_payload_half pad_to_def)
  with ps tie ev show ?thesis
    by (simp add: prod_eq_iff)
qed

text \<open>
  The float32 sample \<open>32769 / 2 ^ 31\<close>: the float32 product that the code rounds is the
  tie \<open>1 / 2\<close>, the code converts the sample to 0, and rounding half away from zero
  gives 1. Rounding the exact product half away from zero does not give the code's
  samples either: at the float32 sample \<open>98307 / 2 ^ 31\<close> the code sends 2, and the exact
  product, just below \<open>3 / 2\<close>, rounds to 1.
\<close>

theorem pcm16_tie_rounds_to_even:
  "f32_round (32769 / 2 ^ 31) = 32769 / 2 ^ 31
   \<and> f32_round (32769 / 2 ^ 31 * 32767) = 1 / 2
   \<and> map sint (float_to_pcm16 [32769 / 2 ^ 31]) = [0]
   \<and> round_half_away (f32_round (32769 / 2 ^ 31 * 32767)) = 1
   \<and> f32_round (98307 / 2 ^ 31) = 98307 / 2 ^ 31
   \<and> map sint (float_to_pcm16 [98307 / 2 ^ 31]) = [2]
   \<and> round_half_away (98307 / 2 ^ 31 * 32767) = 1"
proof -
  have "f32_round (98307 / 2 ^ 31) = 98307 / 2 ^ 31"
    by (subst f32_round_eval [of "- 15"]) (simp_all add: power_int_minus_divide)
  moreover have "map sint (float_to_pcm16 [98307 / 2 ^ 31]) = [2]"
    by (simp add: float_to_pcm16_def np_clip_def f32_product_above py_round_def Let_def)
  moreover have "round_half_away (98307 / 2 ^ 31 * 32767) = 1"
    by (simp add: round_half_away_def)
  moreover
  have "min (max (32769 / 2 ^ 31 :: real) (- 1)) 1 = 32769 / 2 ^ 31"
    by simp
  then have "map sint (float_to_pcm16 [32769 / 2 ^ 31]) = [0]"
    by (simp add: float_to_pcm16_def np_clip_def f32_product_tie py_round_def Let_def)
  moreover have "round_half_away (f32_round (32769 / 2 ^ 31 * 32767)) = 1"
    by (simp add: f32_product_tie round_half_away_def)
  ultimately show ?thesis
    using f32_sample_tie by simp
qed

subsection \<open>The limiter and the range of the output\<close>

lemma limiter_loop_Nil_iff [simp]: "limiter_loop thr a r g xs = [] \<longleftrightarrow> xs = []"
  by (cases xs) (simp_all add: Let_def)

lemma apply_limiter_enabled:
  assumes "force_enable \<or> enabled (limiter cfg)"
    and "apply_limiter cfg signal force_enable ov = Inr (out, st)"
  shows "length out = length signal \<and> (\<forall>x \<in> set out. - 1 \<le> x \<and> x \<le> 1)"
proof -
  define tr where
    "tr = limiter_loop (limiter_threshold (limiter cfg) ov)
            (smoothing_coef (max (1 / 10) (attack_ms (limiter cfg))))
            (smoothing_coef (max 1 (release_ms (limiter cfg)))) 1 signal"
  from assms have "out = np_clip (map snd tr) (- 1) 1"
    by (auto simp: apply_limiter_def Let_def tr_def split: if_splits)
  moreover have "length tr = length signal"
    by (simp add: tr_def)
  ultimately show ?thesis
    using np_clip_bounds [of "- 1" 1 _ "map snd tr"] by auto
qed


lemma apply_limiter_returns:
  "signal \<noteq> [] \<Longrightarrow> \<not> isl (apply_limiter cfg signal force_enable ov)"
  by (auto simp: apply_limiter_def Let_def)










subsection \<open>Limiting twice\<close>

lemma smoothing_coef_range: "0 < smoothing_coef ms \<and> smoothing_coef ms < 1"
  by (simp add: smoothing_coef_def)

lemma limiter_threshold_range:
  "6 / 10 \<le> limiter_threshold lc ov \<and> limiter_threshold lc ov \<le> 999 / 1000"
  by (simp add: limiter_threshold_def clamp_def)

text \<open>A weighted mean of two numbers of an interval is in the interval.\<close>

lemma mix_bounds:
  fixes c g t lo hi :: real
  assumes "0 \<le> c" "c \<le> 1" "lo \<le> g" "g \<le> hi" "lo \<le> t" "t \<le> hi"
  shows "lo \<le> c * g + (1 - c) * t \<and> c * g + (1 - c) * t \<le> hi"
proof -
  have "0 \<le> c * (g - lo) + (1 - c) * (t - lo)"
    using assms by (intro add_nonneg_nonneg mult_nonneg_nonneg) simp_all
  moreover have "0 \<le> c * (hi - g) + (1 - c) * (hi - t)"
    using assms by (intro add_nonneg_nonneg mult_nonneg_nonneg) simp_all
  ultimately show ?thesis
    by (simp add: algebra_simps)
qed

text \<open>On samples of \<open>[-1, 1]\<close> the gain of the limiter stays between the threshold and 1.\<close>

lemma limiter_loop_on_limited:
  assumes "0 < thr" "thr \<le> 1" "0 \<le> a" "a \<le> 1" "0 \<le> r" "r \<le> 1"
    and "thr \<le> g" "g \<le> 1" "\<forall>x \<in> set xs. \<bar>x\<bar> \<le> 1" "i < length xs"
  shows "thr \<le> fst (limiter_loop thr a r g xs ! i)
         \<and> fst (limiter_loop thr a r g xs ! i) \<le> 1
         \<and> snd (limiter_loop thr a r g xs ! i) = xs ! i * fst (limiter_loop thr a r g xs ! i)"
  using assms(7-10)
proof (induction xs arbitrary: g i)
  case Nil
  then show ?case by simp
next
  case (Cons x xs)
  define t where "t = (if \<bar>x\<bar> \<le> thr then 1 else thr / max \<bar>x\<bar> (1 / 10 ^ 6))"
  define c where "c = (if t < g then a else r)"
  define g' where "g' = c * g + (1 - c) * t"
  have x: "\<bar>x\<bar> \<le> 1"
    using Cons.prems(3) by simp
  have t: "thr \<le> t \<and> t \<le> 1"
  proof (cases "\<bar>x\<bar> \<le> thr")
    case True
    then show ?thesis using assms(2) by (simp add: t_def)
  next
    case False
    then have "thr < max \<bar>x\<bar> (1 / 10 ^ 6)" "max \<bar>x\<bar> (1 / 10 ^ 6) \<le> 1"
      using x by simp_all
    then show ?thesis
      using False assms(1) by (simp add: t_def pos_le_divide_eq pos_divide_le_eq)
  qed
  have c: "0 \<le> c" "c \<le> 1"
    using assms(3-6) by (simp_all add: c_def)
  from mix_bounds [OF c Cons.prems(1,2)] t have g': "thr \<le> g'" "g' \<le> 1"
    by (simp_all add: g'_def)
  have step: "limiter_loop thr a r g (x # xs) = (g', x * g') # limiter_loop thr a r g' xs"
    by (simp add: Let_def g'_def c_def t_def)
  show ?case
  proof (cases i)
    case 0
    then show ?thesis unfolding step using g' by simp
  next
    case (Suc j)
    with Cons.prems have "j < length xs" "\<forall>x \<in> set xs. \<bar>x\<bar> \<le> 1"
      by simp_all
    from Cons.IH [OF g' this(2,1)] Suc show ?thesis
      unfolding step by simp
  qed
qed

text \<open>
  The limiter on a non-empty signal of \<open>[-1, 1]\<close>: every sample is multiplied by a gain
  between the threshold and 1, and the final clip changes nothing.
\<close>

lemma apply_limiter_on_limited:
  assumes "fe \<or> enabled (limiter cfg)" "ys \<noteq> []" "\<forall>y \<in> set ys. \<bar>y\<bar> \<le> 1"
  shows "\<exists>gs. length gs = length ys
           \<and> (\<forall>i < length ys. limiter_threshold (limiter cfg) ov \<le> gs ! i \<and> gs ! i \<le> 1)
           \<and> \<not> isl (apply_limiter cfg ys fe ov)
           \<and> fst (projr (apply_limiter cfg ys fe ov)) = map2 (*) ys gs"
proof -
  define T where "T = limiter_threshold (limiter cfg) ov"
  define a where "a = smoothing_coef (max (1 / 10) (attack_ms (limiter cfg)))"
  define r where "r = smoothing_coef (max 1 (release_ms (limiter cfg)))"
  define tr where "tr = limiter_loop T a r 1 ys"
  have T: "0 < T" "T \<le> 1"
    using limiter_threshold_range [of "limiter cfg" ov] by (simp_all add: T_def)
  have ar: "0 \<le> a" "a \<le> 1" "0 \<le> r" "r \<le> 1"
    using smoothing_coef_range [of "max (1 / 10) (attack_ms (limiter cfg))"]
      smoothing_coef_range [of "max 1 (release_ms (limiter cfg))"]
    by (simp_all add: a_def r_def)
  have each: "T \<le> fst (tr ! i) \<and> fst (tr ! i) \<le> 1 \<and> snd (tr ! i) = ys ! i * fst (tr ! i)"
    if "i < length ys" for i
    unfolding tr_def
    using limiter_loop_on_limited [OF T ar T(2) order_refl assms(3) that] .
  have len: "length tr = length ys"
    by (simp add: tr_def)
  have small: "\<bar>snd (tr ! i)\<bar> \<le> 1" if "i < length ys" for i
  proof -
    have "\<bar>ys ! i\<bar> \<le> 1"
      using assms(3) that by simp
    moreover have "0 \<le> fst (tr ! i)" "fst (tr ! i) \<le> 1"
      using each [OF that] T(1) by simp_all
    ultimately have "\<bar>ys ! i\<bar> * fst (tr ! i) \<le> 1 * 1"
      by (intro mult_mono) simp_all
    then show ?thesis
      using each [OF that] \<open>0 \<le> fst (tr ! i)\<close> by (simp add: abs_mult)
  qed
  have clip: "np_clip (map snd tr) (- 1) 1 = map snd tr"
    unfolding np_clip_def
  proof (rule map_idI)
    fix v assume "v \<in> set (map snd tr)"
    then obtain i where "i < length ys" "v = snd (tr ! i)"
      using len by (auto simp: in_set_conv_nth)
    with small [of i] show "min (max v (- 1)) 1 = v"
      by (simp add: abs_le_iff)
  qed
  have prod: "map snd tr = map2 (*) ys (map fst tr)"
    by (rule nth_equalityI) (simp_all add: len each)
  have ne: "tr \<noteq> []"
    using assms(2) len by auto
  have res: "apply_limiter cfg ys fe ov
      = Inr (map snd tr, snd (projr (apply_limiter cfg ys fe ov)))"
    using assms(1,2) ne clip
    by (auto simp: apply_limiter_def Let_def T_def [symmetric] a_def [symmetric]
        r_def [symmetric] tr_def [symmetric])
  have "\<not> isl (apply_limiter cfg ys fe ov)"
    by (subst res) simp
  moreover have "fst (projr (apply_limiter cfg ys fe ov)) = map2 (*) ys (map fst tr)"
    by (subst res) (simp add: prod)
  moreover have "\<forall>i < length ys. T \<le> map fst tr ! i \<and> map fst tr ! i \<le> 1"
    using each len by simp
  ultimately show ?thesis
    using len unfolding T_def by (intro exI [of _ "map fst tr"]) simp
qed

text \<open>Scaling every sample by a factor of \<open>[T, 1]\<close> scales the peak by a factor of
  \<open>[T, 1]\<close>.\<close>

lemma Max_abs_ge: "i < length xs \<Longrightarrow> \<bar>xs ! i\<bar> \<le> Max (set (map abs (xs :: real list)))"
  by (rule Max_ge) (auto intro!: imageI nth_mem)

lemma Max_abs_le:
  fixes xs :: "real list"
  assumes "xs \<noteq> []" "\<forall>i < length xs. \<bar>xs ! i\<bar> \<le> b"
  shows "Max (set (map abs xs)) \<le> b"
  using assms by (subst Max_le_iff) (auto simp: in_set_conv_nth)

lemma Max_abs_attained:
  fixes xs :: "real list"
  assumes "xs \<noteq> []"
  shows "\<exists>j < length xs. Max (set (map abs xs)) = \<bar>xs ! j\<bar>"
proof -
  have "Max (set (map abs xs)) \<in> set (map abs xs)"
    using assms by (intro Max_in) simp_all
  then show ?thesis
    by (auto simp: in_set_conv_nth)
qed

lemma peak_scaled:
  fixes ys gs :: "real list" and T :: real
  assumes "ys \<noteq> []" "length gs = length ys" "0 \<le> T"
    and "\<forall>i < length ys. T \<le> gs ! i \<and> gs ! i \<le> 1"
  shows "Max (set (map abs (map2 (*) ys gs))) \<le> Max (set (map abs ys))"
    and "T * Max (set (map abs ys)) \<le> Max (set (map abs (map2 (*) ys gs)))"
proof -
  define zs where "zs = map2 (*) ys gs"
  have len: "length zs = length ys"
    by (simp add: zs_def assms(2))
  have gi: "T \<le> gs ! i" "gs ! i \<le> 1" "0 \<le> gs ! i" if "i < length ys" for i
    using that assms(3,4) by (auto intro: order_trans)
  have zi: "\<bar>zs ! i\<bar> = \<bar>ys ! i\<bar> * gs ! i" if "i < length ys" for i
    using that gi(3) [OF that] assms(2) by (simp add: zs_def abs_mult)
  have ne: "zs \<noteq> []"
    using assms(1) len by auto
  have "Max (set (map abs zs)) \<le> Max (set (map abs ys))"
  proof (rule Max_abs_le [OF ne], intro allI impI)
    fix i assume "i < length zs"
    then have i: "i < length ys"
      by (simp add: len)
    have "\<bar>zs ! i\<bar> = \<bar>ys ! i\<bar> * gs ! i"
      by (rule zi [OF i])
    also have "\<dots> \<le> \<bar>ys ! i\<bar> * 1"
      by (rule mult_left_mono) (simp_all add: gi(2) [OF i])
    also have "\<dots> \<le> Max (set (map abs ys))"
      using Max_abs_ge [OF i] by simp
    finally show "\<bar>zs ! i\<bar> \<le> Max (set (map abs ys))" .
  qed
  then show "Max (set (map abs (map2 (*) ys gs))) \<le> Max (set (map abs ys))"
    by (simp only: zs_def)
  from Max_abs_attained [OF assms(1)] obtain j where
    j: "j < length ys" "Max (set (map abs ys)) = \<bar>ys ! j\<bar>"
    by blast
  have "T * \<bar>ys ! j\<bar> \<le> gs ! j * \<bar>ys ! j\<bar>"
    by (rule mult_right_mono) (simp_all add: gi(1) [OF j(1)])
  also have "\<dots> = \<bar>zs ! j\<bar>"
    by (simp only: zi [OF j(1)] mult.commute)
  also have "\<dots> \<le> Max (set (map abs zs))"
    by (rule Max_abs_ge) (simp add: len j(1))
  finally have "T * Max (set (map abs ys)) \<le> Max (set (map abs zs))"
    by (simp only: j(2))
  then show "T * Max (set (map abs ys)) \<le> Max (set (map abs (map2 (*) ys gs)))"
    by (simp only: zs_def)
qed

lemma peak_dbfs_scaled:
  assumes "zs \<noteq> []" "ys \<noteq> []" "0 < T" "T \<le> 1"
    and "Max (set (map abs zs)) \<le> Max (set (map abs ys))"
    and "T * Max (set (map abs ys)) \<le> Max (set (map abs zs))"
  shows "estimate_peak_dbfs zs \<le> estimate_peak_dbfs ys"
    and "estimate_peak_dbfs ys + 20 * log 10 T \<le> estimate_peak_dbfs zs"
proof -
  define pz where "pz = max (Max (set (map abs zs))) (1 / 10 ^ 7)"
  define py where "py = max (Max (set (map abs ys))) (1 / 10 ^ 7)"
  have pos: "0 < pz" "0 < py"
    by (simp_all add: pz_def py_def less_max_iff_disj)
  have le: "pz \<le> py"
    using assms(5) by (simp add: pz_def py_def max.coboundedI1)
  have "T * (1 / 10 ^ 7) \<le> 1 * (1 / 10 ^ 7)"
    using assms(4) by (intro mult_right_mono) simp_all
  then have ge: "T * py \<le> pz"
    using assms(3,6) by (simp add: pz_def py_def max_def not_le)
  have db: "estimate_peak_dbfs zs = 20 * log 10 pz" "estimate_peak_dbfs ys = 20 * log 10 py"
    using assms(1,2) by (simp_all add: estimate_peak_dbfs_def Let_def pz_def py_def)
  show "estimate_peak_dbfs zs \<le> estimate_peak_dbfs ys"
    using le pos by (simp add: db)
  have "log 10 T + log 10 py = log 10 (T * py)"
    using assms(3) pos by (simp add: log_mult)
  also have "\<dots> \<le> log 10 pz"
    using ge assms(3) pos by (simp add: log_le_cancel_iff)
  finally show "estimate_peak_dbfs ys + 20 * log 10 T \<le> estimate_peak_dbfs zs"
    by (simp add: db)
qed

text \<open>
  Claim C8, as the code has it. Let the limiter run (enabled, or forced) on a non-empty
  signal, and again, with the same configuration, on its own output. Both runs return,
  the second output has the length of the signal, and its peak level
  (\<open>estimate_peak_dbfs\<close>) is not above the peak level of the first output and not more
  than \<open>- 20 * log 10 T\<close> dB below it, where \<open>T\<close> is the threshold of the limiter after its
  clamp to \<open>[0.6, 0.999]\<close>. So the second run changes the peak by less than 0.5 dB when
  \<open>1 / 10 < T ^ 40\<close>, which is \<open>T\<close> above about 0.944, as the default 0.98 is. The samples
  are real numbers.
\<close>

theorem limiter_twice_peak:
  fixes cfg :: config and signal :: "real list" and force_enable :: bool
    and threshold_override :: "real option"
  defines "once \<equiv> fst (projr (apply_limiter cfg signal force_enable threshold_override))"
  defines "twice \<equiv> fst (projr (apply_limiter cfg once force_enable threshold_override))"
  assumes "force_enable \<or> enabled (limiter cfg)" and "signal \<noteq> []"
  shows "\<not> isl (apply_limiter cfg signal force_enable threshold_override)
     \<and> \<not> isl (apply_limiter cfg once force_enable threshold_override)
     \<and> length twice = length signal
     \<and> estimate_peak_dbfs twice \<le> estimate_peak_dbfs once
     \<and> estimate_peak_dbfs once
           + 20 * log 10 (limiter_threshold (limiter cfg) threshold_override)
         \<le> estimate_peak_dbfs twice
     \<and> (1 / 10 < limiter_threshold (limiter cfg) threshold_override ^ 40
          \<longrightarrow> \<bar>estimate_peak_dbfs twice - estimate_peak_dbfs once\<bar> < 1 / 2)"
proof -
  define T where "T = limiter_threshold (limiter cfg) threshold_override"
  have T: "0 < T" "T \<le> 1"
    using limiter_threshold_range [of "limiter cfg" threshold_override] by (simp_all add: T_def)
  have ret: "\<not> isl (apply_limiter cfg signal force_enable threshold_override)"
    by (rule apply_limiter_returns [OF assms(4)])
  then obtain st where
    r: "apply_limiter cfg signal force_enable threshold_override = Inr (once, st)"
    by (cases "apply_limiter cfg signal force_enable threshold_override")
      (auto simp: once_def)
  from apply_limiter_enabled [OF assms(3) r]
  have len: "length once = length signal" and range: "\<forall>x \<in> set once. - 1 \<le> x \<and> x \<le> 1"
    by simp_all
  from len assms(4) have ne: "once \<noteq> []"
    by auto
  from range have small: "\<forall>y \<in> set once. \<bar>y\<bar> \<le> 1"
    by (simp add: abs_le_iff)
  from apply_limiter_on_limited [OF assms(3) ne small, of threshold_override]
  obtain gs where gs: "length gs = length once" "\<forall>i < length once. T \<le> gs ! i \<and> gs ! i \<le> 1"
    and ret2: "\<not> isl (apply_limiter cfg once force_enable threshold_override)"
    and tw: "twice = map2 (*) once gs"
    by (auto simp: T_def twice_def)
  have len2: "length twice = length signal"
    by (simp add: tw gs(1) len)
  then have ne2: "twice \<noteq> []"
    using assms(4) by auto
  from T(1) have T0: "0 \<le> T"
    by simp
  note peaks = peak_scaled [OF ne gs(1) T0 gs(2), folded tw]
  note db = peak_dbfs_scaled [OF ne2 ne T peaks]
  have close: "\<bar>estimate_peak_dbfs twice - estimate_peak_dbfs once\<bar> < 1 / 2"
    if "1 / 10 < T ^ 40"
  proof -
    have "log 10 (1 / 10) < log 10 (T ^ 40)"
      using that T(1) by (simp add: log_less_cancel_iff del: log_divide)
    moreover have "log 10 (T ^ 40) = 40 * log 10 T"
      using T(1) by (simp add: log_nat_power)
    moreover have "log 10 (1 / 10) = - 1"
      by (simp add: log_divide)
    ultimately have "- 1 / 2 < 20 * log 10 T"
      by simp
    with db show ?thesis
      by (simp add: abs_less_iff)
  qed
  from ret ret2 len2 db close show ?thesis
    unfolding T_def by blast
qed

lemma default_limiter_threshold: "limiter_threshold (limiter default_config) None = 49 / 50"
  by (simp add: limiter_threshold_def clamp_def default_config_def)

theorem limiter_twice_peak_witness:
  "enabled (limiter default_config)
   \<and> [2, - 1 / 2] \<noteq> ([] :: real list)
   \<and> 1 / 10 < limiter_threshold (limiter default_config) None ^ 40
   \<and> \<bar>estimate_peak_dbfs
         (fst (projr (apply_limiter default_config
                        (fst (projr (apply_limiter default_config [2, - 1 / 2] False None)))
                        False None)))
       - estimate_peak_dbfs (fst (projr (apply_limiter default_config [2, - 1 / 2] False None)))\<bar>
       < 1 / 2"
proof -
  have on: "enabled (limiter default_config)"
    by (simp add: default_config_def)
  have ne: "[2, - 1 / 2] \<noteq> ([] :: real list)"
    by simp
  have thr: "1 / 10 < limiter_threshold (limiter default_config) None ^ 40"
    by (simp add: default_limiter_threshold power_divide)
  from limiter_twice_peak [OF disjI2 [OF on] ne, where threshold_override = None] on ne thr
  show ?thesis
    by blast
qed

text \<open>The attack coefficient of the shortest attack, 0.1 ms.\<close>

lemma shortest_attack_coef:
  "smoothing_coef (1 / 10) = exp (- (5 / 8))"
  "3 / 8 \<le> exp (- (5 / 8 :: real))" "exp (- (5 / 8 :: real)) \<le> 8 / 13"
proof -
  show "smoothing_coef (1 / 10) = exp (- (5 / 8))"
    by (simp add: smoothing_coef_def)
  show "3 / 8 \<le> exp (- (5 / 8 :: real))"
    using exp_ge_add_one_self [of "- (5 / 8) :: real"] by simp
  have "13 / 8 \<le> exp (5 / 8 :: real)"
    using exp_ge_add_one_self [of "5 / 8 :: real"] by simp
  then have "inverse (exp (5 / 8 :: real)) \<le> inverse (13 / 8)"
    by (intro le_imp_inverse_le) simp_all
  then show "exp (- (5 / 8 :: real)) \<le> 8 / 13"
    by (simp add: exp_minus)
qed

lemma hard_limiter_fields:
  "enabled (limiter hard_limiter_config)"
  "limiter_threshold (limiter hard_limiter_config) None = 3 / 5"
  "max (1 / 10) (attack_ms (limiter hard_limiter_config)) = 1 / 10"
  by (simp_all add: hard_limiter_config_def default_config_def limiter_threshold_def clamp_def)

text \<open>
  With the threshold 0.6 and the attack 0.1 ms, the limiter turns the signal \<open>[10]\<close> into
  \<open>[1]\<close> (the final clip), and \<open>[1]\<close> into one sample of at most \<open>11 / 13\<close>.
\<close>

lemma hard_limiter_once:
  "fst (projr (apply_limiter hard_limiter_config [10] False None)) = [1]"
proof -
  define a where "a = exp (- (5 / 8 :: real))"
  have a: "3 / 8 \<le> a"
    using shortest_attack_coef(2) by (simp add: a_def)
  have "fst (projr (apply_limiter hard_limiter_config [10] False None))
      = [min (max (10 * (a + (1 - a) * (3 / 50))) (- 1)) 1]"
    by (simp add: apply_limiter_def Let_def hard_limiter_fields shortest_attack_coef(1)
        np_clip_def a_def)
  moreover have "1 \<le> 10 * (a + (1 - a) * (3 / 50))"
    using a by argo
  ultimately show ?thesis
    by simp
qed

lemma hard_limiter_twice:
  "\<exists>p. fst (projr (apply_limiter hard_limiter_config [1] False None)) = [p]
       \<and> 3 / 5 \<le> p \<and> p \<le> 11 / 13"
proof -
  define a where "a = exp (- (5 / 8 :: real))"
  have a: "3 / 8 \<le> a" "a \<le> 8 / 13"
    using shortest_attack_coef(2,3) by (simp_all add: a_def)
  have "fst (projr (apply_limiter hard_limiter_config [1] False None))
      = [min (max (a + (1 - a) * (3 / 5)) (- 1)) 1]"
    by (simp add: apply_limiter_def Let_def hard_limiter_fields shortest_attack_coef(1)
        np_clip_def a_def)
  moreover have b: "3 / 5 \<le> a + (1 - a) * (3 / 5)" "a + (1 - a) * (3 / 5) \<le> 11 / 13"
    using a by argo+
  moreover from b have "min (max (a + (1 - a) * (3 / 5)) (- 1)) 1 = a + (1 - a) * (3 / 5)"
    by (simp only: min_def max_def) argo
  ultimately show ?thesis
    by simp
qed

text \<open>
  The limiter with the threshold 0.6 and the attack 0.1 ms, twice on the signal \<open>[10]\<close>:
  the peak of the first output is 0 dBFS and the peak of the second is below - 1 dBFS.
\<close>

theorem limiter_twice_lowers_peak:
  "enabled (limiter hard_limiter_config)
   \<and> fst (projr (apply_limiter hard_limiter_config [10] False None)) = [1]
   \<and> estimate_peak_dbfs (fst (projr (apply_limiter hard_limiter_config [10] False None))) = 0
   \<and> estimate_peak_dbfs
        (fst (projr (apply_limiter hard_limiter_config
                       (fst (projr (apply_limiter hard_limiter_config [10] False None)))
                       False None)))
       \<le> - 1"
proof -
  from hard_limiter_twice obtain p where
    p: "fst (projr (apply_limiter hard_limiter_config [1] False None)) = [p]"
      "3 / 5 \<le> p" "p \<le> 11 / 13"
    by blast
  have peak1: "estimate_peak_dbfs [1] = 0"
    by (simp add: estimate_peak_dbfs_def)
  have "estimate_peak_dbfs [p] = 20 * log 10 p"
    using p(2) by (simp add: estimate_peak_dbfs_def Let_def max_def)
  moreover have "log 10 p \<le> log 10 (11 / 13)"
    using p(2,3) by (simp add: log_le_cancel_iff del: log_divide)
  moreover have "20 * log 10 (11 / 13 :: real) = log 10 ((11 / 13) ^ 20)"
    by (simp add: log_nat_power del: log_divide)
  moreover have "log 10 ((11 / 13 :: real) ^ 20) \<le> log 10 (1 / 10)"
    by (subst log_le_cancel_iff) (simp_all add: power_divide)
  moreover have "log 10 (1 / 10 :: real) = - 1"
    by (simp add: log_divide)
  ultimately have "estimate_peak_dbfs [p] \<le> - 1"
    by linarith
  then show ?thesis
    using hard_limiter_fields(1) peak1 by (simp add: hard_limiter_once p(1))
qed

end
